theory Spec2Isabelle
  imports Complex_Main
begin

section \<open>Python strings and sequences\<close>

text \<open>
  A Python \<open>str\<close> is a sequence of Unicode code points, so a string is modelled as a list of
  code points (\<open>nat\<close>). The line boundaries of \<open>str.splitlines\<close> and the white space of
  \<open>str.strip\<close> include code points above 255 (U+2028, U+2029, U+3000, ...), which is why
  the 8-bit \<open>char\<close> is not used. \<open>py\<close> turns an ASCII literal into such a string.
\<close>

type_synonym pystr = "nat list"

definition py :: "string \<Rightarrow> pystr" where
  "py s = map of_char s"

text \<open>The code points at which \<open>str.splitlines()\<close> breaks a line.\<close>

definition is_linebreak :: "nat \<Rightarrow> bool" where
  "is_linebreak ch \<longleftrightarrow> ch \<in> set [10, 11, 12, 13, 28, 29, 30, 133, 8232, 8233]"

text \<open>The code points that \<open>str.strip()\<close> removes (\<open>str.isspace\<close>).\<close>

definition is_space :: "nat \<Rightarrow> bool" where
  "is_space ch \<longleftrightarrow>
     ch \<in> set [9, 10, 11, 12, 13, 28, 29, 30, 31, 32, 133, 160, 5760,
                8232, 8233, 8239, 8287, 12288]
     \<or> (8192 \<le> ch \<and> ch \<le> 8202)"

text \<open>
  \<open>text.splitlines()\<close>: \<open>cur\<close> is the line read so far. A line is closed at every line
  boundary (CR LF counting as one); what follows the last boundary is a line only when it is
  not empty.
\<close>

fun splitlines_from :: "pystr \<Rightarrow> pystr \<Rightarrow> pystr list" where
  "splitlines_from cur [] = (if cur = [] then [] else [cur])"
| "splitlines_from cur [ch] =
     (if is_linebreak ch then [cur] else [cur @ [ch]])"
| "splitlines_from cur (ch # ch2 # rest) =
     (if is_linebreak ch then
        (if ch = 13 \<and> ch2 = 10 then cur # splitlines_from [] rest
         else cur # splitlines_from [] (ch2 # rest))
      else splitlines_from (cur @ [ch]) (ch2 # rest))"

definition splitlines :: "pystr \<Rightarrow> pystr list" where
  "splitlines text = splitlines_from [] text"

text \<open>\<open>s.strip()\<close>: white space removed at both ends.\<close>

definition strip :: "pystr \<Rightarrow> pystr" where
  "strip s = rev (dropWhile is_space (rev (dropWhile is_space s)))"

text \<open>\<open>sep.join(xs)\<close>.\<close>

fun join :: "pystr \<Rightarrow> pystr list \<Rightarrow> pystr" where
  "join sep [] = []"
| "join sep [x] = x"
| "join sep (x # y # ys) = x @ sep @ join sep (y # ys)"

text \<open>
  \<open>xs[a:b]\<close> with Python's rules: a negative index counts from the end, both indices are
  clamped to the list, and the slice is empty when it would run backwards.
\<close>

definition slice_index :: "nat \<Rightarrow> int \<Rightarrow> nat" where
  "slice_index n i = (if i < 0 then nat (max 0 (i + int n)) else min (nat i) n)"

definition py_slice :: "'a list \<Rightarrow> int \<Rightarrow> int \<Rightarrow> 'a list" where
  "py_slice xs a b =
     (let a' = slice_index (length xs) a; b' = slice_index (length xs) b
      in take (b' - a') (drop a' xs))"

text \<open>\<open>str(n)\<close> for an integer: its decimal digits, with a sign when negative.\<close>

fun str_nat :: "nat \<Rightarrow> pystr" where
  "str_nat n = (if n < 10 then [48 + n] else str_nat (n div 10) @ [48 + n mod 10])"

declare str_nat.simps [simp del]

definition str_int :: "int \<Rightarrow> pystr" where
  "str_int i = (if i < 0 then 45 # str_nat (nat (- i)) else str_nat (nat i))"

section \<open>The chunker: \<open>chunk_text\<close>\<close>

text \<open>
  The generator is modelled by the list of the triples it yields, in order. \<open>chunk_loop\<close> is
  the \<open>while start < len(lines)\<close> loop; the step \<open>max(1, chunk_lines - chunk_overlap)\<close> is at
  least one, which is what makes the loop end.
\<close>

function chunk_loop :: "pystr list \<Rightarrow> int \<Rightarrow> int \<Rightarrow> int \<Rightarrow> (pystr \<times> int \<times> int) list" where
  "chunk_loop lines chunk_lines chunk_overlap start =
     (if start < int (length lines) then
        (let endl = min (int (length lines)) (start + chunk_lines);
             chunk = strip (join [10] (py_slice lines start endl))
         in (if chunk \<noteq> [] then [(chunk, start + 1, endl)] else [])
            @ chunk_loop lines chunk_lines chunk_overlap
                (start + max 1 (chunk_lines - chunk_overlap)))
      else [])"
  by pat_completeness auto
termination
  by (relation "measure (\<lambda>(lines, c, ov, start). nat (int (length lines) - start))") auto

declare chunk_loop.simps [simp del]

definition chunk_text :: "pystr \<Rightarrow> int \<Rightarrow> int \<Rightarrow> (pystr \<times> int \<times> int) list" where
  "chunk_text text chunk_lines chunk_overlap =
     (let lines = splitlines text
      in if lines = [] then [] else chunk_loop lines chunk_lines chunk_overlap 0)"

text \<open>
  The windowing rule in the words of the specification: window \<open>k\<close> starts at line offset
  \<open>k * step\<close>, and there are as many windows as there are multiples of \<open>step\<close> below \<open>L\<close>.
\<close>

definition num_windows :: "nat \<Rightarrow> int \<Rightarrow> nat" where
  "num_windows L step = nat \<lceil>real L / real_of_int step\<rceil>"

definition window_starts :: "nat \<Rightarrow> int \<Rightarrow> int list" where
  "window_starts L step = map (\<lambda>k. int k * step) [0..<num_windows L step]"

text \<open>
  The body of the loop at one \<open>start\<close>, apart from the advance: the chunk text of the
  window as the source slices it, and what is yielded for it, if anything.
\<close>

definition window_chunk :: "pystr list \<Rightarrow> int \<Rightarrow> int \<Rightarrow> pystr" where
  "window_chunk lines chunk_lines start =
     strip (join [10]
       (py_slice lines start (min (int (length lines)) (start + chunk_lines))))"

definition loop_body :: "pystr list \<Rightarrow> int \<Rightarrow> int \<Rightarrow> (pystr \<times> int \<times> int) option" where
  "loop_body lines chunk_lines start =
     (if window_chunk lines chunk_lines start \<noteq> []
      then Some (window_chunk lines chunk_lines start, start + 1,
                 min (int (length lines)) (start + chunk_lines))
      else None)"

text \<open>
  The text of the window of lines \<open>[start, endl)\<close> (zero-based, half-open), stated without
  Python's slice rules.
\<close>

definition window_text :: "pystr list \<Rightarrow> nat \<Rightarrow> nat \<Rightarrow> pystr" where
  "window_text lines start endl = strip (join [10] (take (endl - start) (drop start lines)))"

section \<open>Batching: \<open>batched\<close>\<close>

text \<open>
  The \<open>for item in iterable\<close> loop with its local \<open>batch\<close>; the result is the list of the
  batches yielded, the last one by the \<open>if batch\<close> after the loop.
\<close>

fun batched_loop :: "'a list \<Rightarrow> int \<Rightarrow> 'a list \<Rightarrow> 'a list list" where
  "batched_loop [] sz batch = (if batch \<noteq> [] then [batch] else [])"
| "batched_loop (item # rest) sz batch =
     (if int (length (batch @ [item])) \<ge> sz
      then (batch @ [item]) # batched_loop rest sz []
      else batched_loop rest sz (batch @ [item]))"

definition batched :: "'a list \<Rightarrow> int \<Rightarrow> 'a list list" where
  "batched iterable sz = batched_loop iterable sz []"

section \<open>Exceptions, generators and floats\<close>

text \<open>
  Every exception the code raises or catches is a value; \<open>exc_str\<close> is \<open>str(exc)\<close>.
  \<open>OSError\<close> stands for \<open>OSError\<close> and its subclasses (\<open>PermissionError\<close>, ...), and
  \<open>Exception\<close> for any other exception a collaborator raises.
\<close>

datatype py_error =
    OSError pystr
  | ValueError pystr
  | TypeError pystr
  | IndexError pystr
  | InvalidCollectionException pystr
  | Exception pystr

fun exc_str :: "py_error \<Rightarrow> pystr" where
  "exc_str (OSError m) = m"
| "exc_str (ValueError m) = m"
| "exc_str (TypeError m) = m"
| "exc_str (IndexError m) = m"
| "exc_str (InvalidCollectionException m) = m"
| "exc_str (Exception m) = m"

text \<open>
  A generator that may raise is modelled by what it yields, in order, and the exception that
  ends it, if one does.
\<close>

type_synonym 'a generator = "'a list \<times> py_error option"

text \<open>
  A Python float: a finite value (the real number it denotes), an infinity, or not a number.
  \<open>float_times x k\<close> is \<open>x * k\<close> for a positive integer \<open>k\<close>; for the power of two 1024
  the floating-point product is exact short of overflow, and then it is an infinity, which
  compares with a file size (below \<open>2^63\<close>) as the exact product does. \<open>int_gt_float n x\<close> is
  Python's \<open>n > x\<close> for an int \<open>n \<ge> 0\<close>, which is exact and false for not a number.
\<close>

datatype pyfloat = Finite real | PosInf | NegInf | NaN

fun float_times :: "pyfloat \<Rightarrow> nat \<Rightarrow> pyfloat" where
  "float_times (Finite r) k = Finite (r * real k)"
| "float_times PosInf k = PosInf"
| "float_times NegInf k = NegInf"
| "float_times NaN k = NaN"

fun int_gt_float :: "nat \<Rightarrow> pyfloat \<Rightarrow> bool" where
  "int_gt_float n (Finite r) \<longleftrightarrow> real n > r"
| "int_gt_float n PosInf \<longleftrightarrow> False"
| "int_gt_float n NegInf \<longleftrightarrow> True"
| "int_gt_float n NaN \<longleftrightarrow> False"

section \<open>Ingestion: file selection and chunk assembly\<close>

record Chunk =
  doc_id :: pystr
  document :: pystr
  metadata :: "(pystr \<times> pystr) list"

text \<open>
  What the selector and the assembler observe of one path of \<open>root.rglob("*")\<close>: the parts
  of \<open>path.relative_to(root)\<close>, the outcome of \<open>path.is_file()\<close>, \<open>path.suffix\<close>, the size
  reported by \<open>path.stat()\<close> at the size test (\<open>None\<close> when \<open>stat\<close> raises \<open>OSError\<close>) and
  the text returned by \<open>path.read_text(encoding="utf-8", errors="ignore")\<close> (\<open>None\<close> when
  it raises \<open>OSError\<close>). \<open>path.is_file()\<close> calls \<open>stat\<close> itself: it answers \<open>False\<close> when
  \<open>stat\<close> fails with \<open>ENOENT\<close>, \<open>ENOTDIR\<close>, \<open>EBADF\<close> or \<open>ELOOP\<close>, and lets every other
  \<open>OSError\<close> through (\<open>EACCES\<close> for one), which is the \<open>Inl\<close> here.
\<close>

record fs_path =
  relative_parts :: "pystr list"
  is_file :: "py_error + bool"
  suffix :: pystr
  st_size :: "nat option"
  read_text :: "pystr option"

definition startswith :: "pystr \<Rightarrow> pystr \<Rightarrow> bool" where
  "startswith s prefix \<longleftrightarrow> take (length prefix) s = prefix"

text \<open>
  \<open>iter_code_files\<close>: \<open>rglob\<close> is the listing of \<open>root.rglob("*")\<close> in the order the file
  system gives it, and \<open>lower\<close> is the library's \<open>str.lower\<close>. Every \<open>continue\<close> of the
  source is a branch that goes on with the rest of the listing. The call \<open>path.is_file()\<close>
  stands outside the \<open>try\<close>: when it raises, the generator ends with that exception, after
  the paths it has yielded so far.
\<close>

fun iter_code_files ::
  "(pystr \<Rightarrow> pystr) \<Rightarrow> fs_path list \<Rightarrow> pystr list \<Rightarrow> bool \<Rightarrow> pyfloat
     \<Rightarrow> fs_path generator" where
  "iter_code_files lower [] extensions include_hidden max_file_mb = ([], None)"
| "iter_code_files lower (path # rest) extensions include_hidden max_file_mb =
     (let max_bytes = float_times (float_times max_file_mb 1024) 1024;
          more = iter_code_files lower rest extensions include_hidden max_file_mb
      in case is_file path of
           Inl exc \<Rightarrow> ([], Some exc)
         | Inr regular \<Rightarrow>
             if \<not> regular then more
             else if \<not> include_hidden
                     \<and> list_ex (\<lambda>part. startswith part [46]) (relative_parts path) then more
             else if extensions \<noteq> [] \<and> lower (suffix path) \<notin> set extensions then more
             else (case st_size path of
                     None \<Rightarrow> more
                   | Some sz \<Rightarrow>
                       if int_gt_float sz max_bytes then more
                       else (path # fst more, snd more)))"

text \<open>\<open>path.relative_to(source_dir).as_posix()\<close>: the relative parts joined by a slash.\<close>

definition as_posix :: "pystr list \<Rightarrow> pystr" where
  "as_posix parts = join [47] parts"

text \<open>
  The inner loop of \<open>discover_chunks\<close> over one file: \<open>enumerate\<close> numbers the triples that
  \<open>chunk_text\<close> yields, from zero.
\<close>

definition file_chunks :: "pystr \<Rightarrow> pystr \<Rightarrow> pystr \<Rightarrow> pystr \<Rightarrow> int \<Rightarrow> int \<Rightarrow> Chunk list" where
  "file_chunks relative source_dir collection text chunk_lines chunk_overlap =
     map (\<lambda>(idx, (chunk, start_line, end_line)).
            \<lparr>doc_id = relative @ py ''::'' @ str_nat idx,
             document = chunk,
             metadata = [(py ''path'', relative),
                         (py ''start_line'', str_int start_line),
                         (py ''end_line'', str_int end_line),
                         (py ''source_dir'', source_dir),
                         (py ''collection'', collection)]\<rparr>)
         (List.enumerate 0 (chunk_text text chunk_lines chunk_overlap))"

text \<open>
  \<open>discover_chunks\<close>: a file whose \<open>read_text\<close> raises \<open>OSError\<close> is skipped (the message
  printed to the diagnostic stream is left out). \<open>source_dir\<close> stands for \<open>str(source_dir)\<close>.
  When the selector ends with an exception, so does \<open>discover_chunks\<close>, after the chunks
  of the files selected until then.
\<close>

fun discover_files ::
  "fs_path list \<Rightarrow> pystr \<Rightarrow> int \<Rightarrow> int \<Rightarrow> pystr \<Rightarrow> Chunk list" where
  "discover_files [] source_dir chunk_lines chunk_overlap collection = []"
| "discover_files (path # rest) source_dir chunk_lines chunk_overlap collection =
     (case read_text path of
        None \<Rightarrow> discover_files rest source_dir chunk_lines chunk_overlap collection
      | Some text \<Rightarrow>
          file_chunks (as_posix (relative_parts path)) source_dir collection text
            chunk_lines chunk_overlap
          @ discover_files rest source_dir chunk_lines chunk_overlap collection)"

definition discover_chunks ::
  "(pystr \<Rightarrow> pystr) \<Rightarrow> fs_path list \<Rightarrow> pystr \<Rightarrow> pystr list \<Rightarrow> bool \<Rightarrow> pyfloat
     \<Rightarrow> int \<Rightarrow> int \<Rightarrow> pystr \<Rightarrow> Chunk generator" where
  "discover_chunks lower rglob source_dir extensions include_hidden max_file_mb
       chunk_lines chunk_overlap collection =
     (let selected = iter_code_files lower rglob extensions include_hidden max_file_mb
      in (discover_files (fst selected) source_dir chunk_lines chunk_overlap collection,
          snd selected))"

section \<open>The tool server: collaborator calls\<close>

text \<open>
  The calls that leave the process: the file system and the vector store. A computation
  returns its result (or the exception it raised) together with the calls it made, in order.
\<close>

datatype io_call =
    ResolveDbDir pystr
  | Mkdir pystr
  | PersistentClient pystr
  | GetOrCreateCollection pystr
  | GetCollection pystr
  | CollectionQuery pystr int
  | CollectionCount
  | CollectionGet int int bool

type_synonym 'a io = "(py_error + 'a) \<times> io_call list"

definition io_return :: "'a \<Rightarrow> 'a io" where
  "io_return x = (Inr x, [])"

definition io_raise :: "py_error \<Rightarrow> 'a io" where
  "io_raise e = (Inl e, [])"

definition io_do :: "io_call \<Rightarrow> py_error + 'a \<Rightarrow> 'a io" where
  "io_do call res = (res, [call])"

definition io_bind :: "'a io \<Rightarrow> ('a \<Rightarrow> 'b io) \<Rightarrow> 'b io" where
  "io_bind m f =
     (case m of
        (Inl e, calls) \<Rightarrow> (Inl e, calls)
      | (Inr x, calls) \<Rightarrow> (case f x of (r, calls') \<Rightarrow> (r, calls @ calls')))"

text \<open>\<open>try: m  except Exception as exc: handler(exc)\<close>, with \<open>cont\<close> for what follows.\<close>

definition io_try :: "'a io \<Rightarrow> (py_error \<Rightarrow> 'b io) \<Rightarrow> ('a \<Rightarrow> 'b io) \<Rightarrow> 'b io" where
  "io_try m handler cont =
     (case m of
        (Inl e, calls) \<Rightarrow> (case handler e of (r, calls') \<Rightarrow> (r, calls @ calls'))
      | (Inr x, calls) \<Rightarrow> (case cont x of (r, calls') \<Rightarrow> (r, calls @ calls')))"

text \<open>
  A field of a reply of the store, as \<open>results.get(key, default)\<close> sees it: the key may be
  missing (outer \<open>None\<close>), or hold Python's \<open>None\<close> (inner \<open>None\<close>), or a value.
\<close>

type_synonym 'a reply_field = "'a option option"

type_synonym 'v metadata_dict = "(pystr \<times> 'v option) list"

text \<open>
  The reply of \<open>collection.query\<close>: each field holds one row per query text, and a row is
  \<open>None\<close> or a list whose elements may be \<open>None\<close>. Metadata values are of a type \<open>'v\<close>
  whose \<open>str\<close> is a parameter \<open>str_of\<close>; a distance is the real number the float denotes.
\<close>

record 'v query_results =
  query_metadatas :: "'v metadata_dict option list option list reply_field"
  query_documents :: "pystr option list option list reply_field"
  query_distances :: "real option list option list reply_field"

text \<open>The reply of \<open>collection.get\<close>.\<close>

record 'v get_results =
  get_ids :: "pystr list reply_field"
  get_metadatas :: "'v metadata_dict option list reply_field"
  get_documents :: "pystr option list reply_field"

text \<open>
  The collaborators: what each call answers (\<open>Inl\<close>, or \<open>Some\<close> for a call without a
  result, is the exception it raises). \<open>env_resolve\<close> is
  \<open>Path(db_dir).expanduser().resolve()\<close>, as a string.
\<close>

record 'v chroma =
  env_resolve :: "pystr \<Rightarrow> pystr"
  env_mkdir :: "pystr \<Rightarrow> py_error option"
  env_client :: "pystr \<Rightarrow> py_error option"
  env_get_or_create :: "pystr \<Rightarrow> pystr \<Rightarrow> py_error option"
  env_get_collection :: "pystr \<Rightarrow> pystr \<Rightarrow> py_error option"
  env_query :: "pystr \<Rightarrow> pystr \<Rightarrow> pystr \<Rightarrow> int \<Rightarrow> py_error + 'v query_results"
  env_count :: "pystr \<Rightarrow> pystr \<Rightarrow> py_error + int"
  env_get :: "pystr \<Rightarrow> pystr \<Rightarrow> int \<Rightarrow> int \<Rightarrow> bool \<Rightarrow> py_error + 'v get_results"

definition raising :: "py_error option \<Rightarrow> py_error + unit" where
  "raising r = (case r of None \<Rightarrow> Inr () | Some e \<Rightarrow> Inl e)"

text \<open>
  The rendering functions of the presenter (\<open>format_context\<close> and \<open>simple_summary\<close> of
  \<open>query_tool.py\<close>, \<open>_format_rows_output\<close>) format floats and re-indent text with
  \<open>textwrap\<close>; they are parameters of the tools.
\<close>

record presenter =
  format_context :: "(pystr \<times> pystr) list \<Rightarrow> pystr \<Rightarrow> real \<Rightarrow> nat \<Rightarrow> pystr"
  simple_summary :: "pystr \<Rightarrow> ((pystr \<times> pystr) list \<times> pystr) list \<Rightarrow> pystr"
  format_rows_output ::
    "pystr \<Rightarrow> pystr \<Rightarrow> int \<Rightarrow> int \<Rightarrow> (pystr \<times> (pystr \<times> pystr) list \<times> pystr option) list
       \<Rightarrow> bool \<Rightarrow> pystr"

section \<open>The retriever: \<open>_query_collection_sync\<close>\<close>

definition resolve_db_dir :: "'v chroma \<Rightarrow> pystr \<Rightarrow> pystr io" where
  "resolve_db_dir env db_dir = io_do (ResolveDbDir db_dir) (Inr (env_resolve env db_dir))"

text \<open>\<open>_get_collection\<close>; the handle of a collection is its directory and its name.\<close>

definition get_collection :: "'v chroma \<Rightarrow> pystr \<Rightarrow> pystr \<Rightarrow> (pystr \<times> pystr) io" where
  "get_collection env db_dir collection_name =
     io_bind (resolve_db_dir env db_dir) (\<lambda>path.
     io_bind (io_do (Mkdir path) (raising (env_mkdir env path))) (\<lambda>_.
     io_bind (io_do (PersistentClient path) (raising (env_client env path))) (\<lambda>_.
     io_bind (io_do (GetOrCreateCollection collection_name)
                (raising (env_get_or_create env path collection_name))) (\<lambda>_.
     io_return (path, collection_name)))))"

text \<open>
  \<open>results.get(key, [[]])[0] or []\<close>: a missing key gives the default and so the empty
  list; \<open>None[0]\<close> and \<open>[][0]\<close> raise; a first row that is \<open>None\<close> (or empty) gives \<open>[]\<close>.
\<close>

definition first_row :: "'a list option list reply_field \<Rightarrow> py_error + 'a list" where
  "first_row field =
     (case field of
        None \<Rightarrow> Inr []
      | Some None \<Rightarrow> Inl (TypeError ([39] @ py ''NoneType'' @ [39] @ py '' object is not subscriptable''))
      | Some (Some []) \<Rightarrow> Inl (IndexError (py ''list index out of range''))
      | Some (Some (row # _)) \<Rightarrow> Inr (case row of None \<Rightarrow> [] | Some xs \<Rightarrow> xs))"

text \<open>
  \<open>{key: str(value) for key, value in (metadata or {}).items() if value is not None}\<close>
\<close>

definition clean_metadata :: "('v \<Rightarrow> pystr) \<Rightarrow> 'v metadata_dict option \<Rightarrow> (pystr \<times> pystr) list" where
  "clean_metadata str_of md =
     List.map_filter
       (\<lambda>(key, val). case val of None \<Rightarrow> None | Some v \<Rightarrow> Some (key, str_of v))
       (case md of None \<Rightarrow> [] | Some d \<Rightarrow> d)"

text \<open>One turn of the loop over \<open>zip(metadatas, documents, distances)\<close>.\<close>

definition clean_triple ::
  "('v \<Rightarrow> pystr) \<Rightarrow> 'v metadata_dict option \<times> pystr option \<times> real option
     \<Rightarrow> (pystr \<times> pystr) list \<times> pystr \<times> real" where
  "clean_triple str_of t =
     (case t of (md, doc, dst) \<Rightarrow>
        (clean_metadata str_of md,
         (case doc of None \<Rightarrow> [] | Some d \<Rightarrow> d),
         (case dst of None \<Rightarrow> 0 | Some x \<Rightarrow> x)))"

text \<open>Lines 70 to 78 of \<open>_query_collection_sync\<close>: what it makes of the reply.\<close>

definition query_contexts ::
  "('v \<Rightarrow> pystr) \<Rightarrow> 'v query_results
     \<Rightarrow> py_error + ((pystr \<times> pystr) list \<times> pystr \<times> real) list" where
  "query_contexts str_of results =
     (case first_row (query_metadatas results) of
        Inl e \<Rightarrow> Inl e
      | Inr metadatas \<Rightarrow>
     (case first_row (query_documents results) of
        Inl e \<Rightarrow> Inl e
      | Inr documents \<Rightarrow>
     (case first_row (query_distances results) of
        Inl e \<Rightarrow> Inl e
      | Inr distances \<Rightarrow>
          Inr (map (clean_triple str_of) (zip metadatas (zip documents distances))))))"

definition query_collection_sync ::
  "('v \<Rightarrow> pystr) \<Rightarrow> 'v chroma \<Rightarrow> pystr \<Rightarrow> pystr \<Rightarrow> pystr \<Rightarrow> int
     \<Rightarrow> ((pystr \<times> pystr) list \<times> pystr \<times> real) list io" where
  "query_collection_sync str_of env question db_dir collection_name top_k =
     io_bind (get_collection env db_dir collection_name) (\<lambda>(path, name).
     io_bind (io_do (CollectionQuery question top_k) (env_query env path name question top_k))
       (\<lambda>results. (query_contexts str_of results, [])))"

section \<open>Raw rows: \<open>_list_rows_sync\<close>\<close>

text \<open>
  The loop \<open>for idx, row_id in enumerate(ids)\<close>. \<open>len(None)\<close> raises, and only when the loop
  body runs.
\<close>

fun rows_loop ::
  "('v \<Rightarrow> pystr) \<Rightarrow> 'v metadata_dict option list option \<Rightarrow> pystr option list option \<Rightarrow> bool
     \<Rightarrow> nat \<Rightarrow> pystr list
     \<Rightarrow> py_error + (pystr \<times> (pystr \<times> pystr) list \<times> pystr option) list" where
  "rows_loop str_of metadatas documents include_docs idx [] = Inr []"
| "rows_loop str_of metadatas documents include_docs idx (row_id # ids) =
     (case metadatas of
        None \<Rightarrow> Inl (TypeError (py ''object of type '' @ [39] @ py ''NoneType'' @ [39] @ py '' has no len()''))
      | Some ms \<Rightarrow>
          (let md = (if idx < length ms then ms ! idx else Some [])
           in case (if include_docs
                    then (case documents of
                            None \<Rightarrow> Inl (TypeError (py ''object of type '' @ [39] @ py ''NoneType'' @ [39] @ py '' has no len()''))
                          | Some ds \<Rightarrow> Inr (if idx < length ds then ds ! idx else None))
                    else Inr None) of
                Inl e \<Rightarrow> Inl e
              | Inr doc \<Rightarrow>
                  (case rows_loop str_of metadatas documents include_docs (Suc idx) ids of
                     Inl e \<Rightarrow> Inl e
                   | Inr rows \<Rightarrow>
                       Inr ((row_id, clean_metadata str_of md, doc) # rows))))"

definition get_field :: "'a reply_field \<Rightarrow> 'a \<Rightarrow> 'a option" where
  "get_field field dflt = (case field of None \<Rightarrow> Some dflt | Some v \<Rightarrow> v)"

definition list_rows_sync ::
  "('v \<Rightarrow> pystr) \<Rightarrow> 'v chroma \<Rightarrow> pystr \<Rightarrow> pystr \<Rightarrow> int \<Rightarrow> int \<Rightarrow> bool
     \<Rightarrow> (int \<times> (pystr \<times> (pystr \<times> pystr) list \<times> pystr option) list) io" where
  "list_rows_sync str_of env db_dir collection_name limit offset include_docs =
     io_bind (resolve_db_dir env db_dir) (\<lambda>path.
     io_bind (io_do (PersistentClient path) (raising (env_client env path))) (\<lambda>_.
     io_bind (io_do (GetCollection collection_name)
                (raising (env_get_collection env path collection_name))) (\<lambda>_.
     io_bind (io_do CollectionCount (env_count env path collection_name)) (\<lambda>total.
     io_bind (io_do (CollectionGet limit offset include_docs)
                (env_get env path collection_name limit offset include_docs)) (\<lambda>data.
       (case get_field (get_ids data) [] of
          None \<Rightarrow> Inl (TypeError ([39] @ py ''NoneType'' @ [39] @ py '' object is not iterable''))
        | Some ids \<Rightarrow>
            (case rows_loop str_of (get_field (get_metadatas data) [])
                    (if include_docs then get_field (get_documents data) [] else Some [])
                    include_docs 0 ids of
               Inl e \<Rightarrow> Inl e
             | Inr rows \<Rightarrow> Inr (total, rows)),
        []))))))"

section \<open>The tools: \<open>query_codebase\<close> and \<open>list_rows\<close>\<close>

definition validate_positive :: "pystr \<Rightarrow> int \<Rightarrow> unit io" where
  "validate_positive name val =
     (if val \<le> 0 then io_raise (ValueError (name @ py '' must be greater than zero.''))
      else io_return ())"

definition query_codebase ::
  "presenter \<Rightarrow> ('v \<Rightarrow> pystr) \<Rightarrow> 'v chroma \<Rightarrow> pystr \<Rightarrow> int \<Rightarrow> pystr \<Rightarrow> pystr \<Rightarrow> pystr io" where
  "query_codebase pres str_of env question top_k collection db_dir =
     io_bind (validate_positive (py ''top_k'') top_k) (\<lambda>_.
     io_try (query_collection_sync str_of env question db_dir collection top_k)
       (\<lambda>exc. io_return (py ''Query failed: '' @ exc_str exc))
       (\<lambda>contexts.
          if contexts = []
          then io_return (py ''No matches found. Make sure the collection has been ingested.'')
          else
            (let snippets =
                   map (\<lambda>(idx, (md, doc, dst)).
                          format_context pres md doc dst idx)
                     (List.enumerate 1 contexts);
                 summary =
                   simple_summary pres question
                     (map (\<lambda>(md, doc, dst). (md, doc)) contexts)
             in io_bind (resolve_db_dir env db_dir) (\<lambda>path.
                io_return
                  (join [10, 10]
                     ([py ''Collection '' @ [39] @ collection @ [39] @ py '' @ '' @ path]
                      @ snippets @ [py ''-----------'', summary]))))))"

definition list_rows ::
  "presenter \<Rightarrow> ('v \<Rightarrow> pystr) \<Rightarrow> 'v chroma \<Rightarrow> pystr \<Rightarrow> pystr \<Rightarrow> int \<Rightarrow> int \<Rightarrow> bool \<Rightarrow> pystr io" where
  "list_rows pres str_of env collection db_dir limit offset include_documents =
     io_bind (validate_positive (py ''limit'') limit) (\<lambda>_.
     if offset < 0 then io_raise (ValueError (py ''offset must be zero or greater.''))
     else
       io_try (list_rows_sync str_of env db_dir collection limit offset include_documents)
         (\<lambda>exc. case exc of
              InvalidCollectionException _ \<Rightarrow>
                io_bind (resolve_db_dir env db_dir) (\<lambda>path.
                io_return (py ''Collection '' @ [39] @ collection @ [39] @ py '' was not found in '' @ path
                           @ py ''. Run the ingestion script first.''))
            | _ \<Rightarrow> io_return (py ''Failed to fetch rows: '' @ exc_str exc))
         (\<lambda>(total, rows).
            io_bind (resolve_db_dir env db_dir) (\<lambda>path.
            io_return
              (format_rows_output pres path collection total offset rows include_documents))))"

section \<open>Properties of the chunker\<close>

lemma num_windows_less:
  assumes "1 \<le> step"
  shows "k < num_windows L step \<longleftrightarrow> int k * step < int L"
proof -
  have pos: "0 < real_of_int step" using assms by simp
  have "k < num_windows L step \<longleftrightarrow> int k < \<lceil>real L / real_of_int step\<rceil>"
    by (simp add: num_windows_def zless_nat_eq_int_zless)
  also have "\<dots> \<longleftrightarrow> real_of_int (int k) < real L / real_of_int step"
    by (rule less_ceiling_iff)
  also have "\<dots> \<longleftrightarrow> real_of_int (int k) * real_of_int step < real L"
    using pos by (simp add: pos_less_divide_eq)
  also have "\<dots> \<longleftrightarrow> real_of_int (int k * step) < real_of_int (int L)"
    by simp
  also have "\<dots> \<longleftrightarrow> int k * step < int L"
    by (rule of_int_less_iff)
  finally show ?thesis .
qed

lemma chunk_loop_unfold:
  "chunk_loop lines c ov start =
     (if start < int (length lines)
      then (case loop_body lines c start of None \<Rightarrow> [] | Some t \<Rightarrow> [t])
           @ chunk_loop lines c ov (start + max 1 (c - ov))
      else [])"
  by (subst chunk_loop.simps) (simp add: loop_body_def window_chunk_def Let_def)

lemma chunk_loop_closed:
  assumes "step = max 1 (c - ov)"
  shows "k \<le> num_windows (length lines) step \<Longrightarrow>
     chunk_loop lines c ov (int k * step) =
       List.map_filter (loop_body lines c)
         (map (\<lambda>j. int j * step) [k..<num_windows (length lines) step])"
proof (induction "num_windows (length lines) step - k" arbitrary: k)
  case 0
  then have "k = num_windows (length lines) step" by simp
  then have "\<not> int k * step < int (length lines)"
    using num_windows_less[of step k "length lines"] assms by simp
  then show ?case using \<open>k = num_windows (length lines) step\<close>
    by (subst chunk_loop_unfold) (simp add: List.map_filter_simps)
next
  case (Suc d)
  then have lt: "k < num_windows (length lines) step" by simp
  then have cond: "int k * step < int (length lines)"
    using num_windows_less[of step k "length lines"] assms by simp
  have next_start: "int k * step + max 1 (c - ov) = int (Suc k) * step"
    using assms by (simp add: algebra_simps)
  have IH: "chunk_loop lines c ov (int (Suc k) * step) =
       List.map_filter (loop_body lines c)
         (map (\<lambda>j. int j * step) [Suc k..<num_windows (length lines) step])"
    using Suc lt by (intro Suc.hyps(1)) auto
  have upt: "[k..<num_windows (length lines) step] = k # [Suc k..<num_windows (length lines) step]"
    using lt by (simp add: upt_conv_Cons)
  show ?case
    apply (subst chunk_loop_unfold)
    apply (simp only: cond if_True next_start IH upt list.map)
    apply (simp add: List.map_filter_simps split: option.splits)
    done
qed

lemma chunk_text_closed:
  "chunk_text text c ov =
     List.map_filter (loop_body (splitlines text) c)
       (window_starts (length (splitlines text)) (max 1 (c - ov)))"
proof (cases "splitlines text = []")
  case True
  then show ?thesis
    by (simp add: chunk_text_def window_starts_def num_windows_def List.map_filter_simps)
next
  case False
  then show ?thesis
    using chunk_loop_closed[of "max 1 (c - ov)" c ov 0 "splitlines text"]
    by (simp add: chunk_text_def window_starts_def Let_def)
qed

lemma map_filter_loop_body:
  "List.map_filter (loop_body lines c) starts =
     map (\<lambda>s. (window_chunk lines c s, s + 1, min (int (length lines)) (s + c)))
       (filter (\<lambda>s. window_chunk lines c s \<noteq> []) starts)"
  by (induction starts) (simp_all add: List.map_filter_simps loop_body_def)

lemma window_starts_range:
  assumes "1 \<le> step" and "s \<in> set (window_starts L step)"
  shows "0 \<le> s \<and> s < int L"
proof -
  from assms(2) obtain k where k: "k < num_windows L step" and s: "s = int k * step"
    by (auto simp: window_starts_def)
  from k have "int k * step < int L" using num_windows_less[OF assms(1)] by simp
  moreover have "0 \<le> int k * step" using assms(1) by simp
  ultimately show ?thesis using s by simp
qed

lemma window_chunk_text:
  assumes "0 \<le> s" and "s < int (length lines)" and "0 < c"
  shows "window_chunk lines c s =
           window_text lines (nat s) (nat (min (int (length lines)) (s + c)))"
proof -
  have a: "slice_index (length lines) s = nat s"
    using assms by (simp add: slice_index_def)
  have b: "slice_index (length lines) (min (int (length lines)) (s + c))
             = nat (min (int (length lines)) (s + c))"
    using assms by (auto simp: slice_index_def min_def)
  show ?thesis
    by (simp add: window_chunk_def window_text_def py_slice_def a b Let_def)
qed

lemma sorted_window_starts:
  assumes "1 \<le> step"
  shows "sorted_wrt (<) (window_starts L step)"
proof -
  have lt: "\<And>i j::nat. i < j \<Longrightarrow> int i * step < int j * step"
    using assms by (intro mult_strict_right_mono) simp_all
  have "sorted_wrt (<) [0..<num_windows L step]"
    by (rule sorted_wrt_upt)
  then have "sorted_wrt (\<lambda>i j. int i * step < int j * step) [0..<num_windows L step]"
    by (rule sorted_wrt_mono_rel[rotated]) (rule lt)
  then show ?thesis by (simp only: window_starts_def sorted_wrt_map)
qed

text \<open>
  Claim C1. For a text of \<open>L > 0\<close> lines, a positive \<open>chunk_lines = c\<close> and any
  \<open>chunk_overlap\<close>, the candidate windows start at the line offsets \<open>0, step, 2 * step, ...\<close>
  with \<open>step = max 1 (c - chunk_overlap)\<close>, exactly those multiples of \<open>step\<close> that are below
  \<open>L\<close>; the window at \<open>start\<close> covers the lines \<open>[start, min L (start + c))\<close>; and the triples
  yielded are, for the windows whose text is not empty after stripping and in increasing order
  of \<open>start\<close>, that text with \<open>start + 1\<close> and \<open>min L (start + c)\<close>.
\<close>

theorem chunk_text_windows:
  fixes "text" :: pystr and c ov :: int
  defines "lines \<equiv> splitlines text"
  defines "L \<equiv> length (splitlines text)"
  defines "step \<equiv> max 1 (c - ov)"
  assumes "0 < L" and "0 < c"
  shows "chunk_text text c ov =
           map (\<lambda>s. (window_text lines (nat s) (nat (min (int L) (s + c))),
                      s + 1, min (int L) (s + c)))
             (filter (\<lambda>s. window_text lines (nat s) (nat (min (int L) (s + c))) \<noteq> [])
                (window_starts L step))
         \<and> window_starts L step = map (\<lambda>k. int k * step) [0..<num_windows L step]
         \<and> (\<forall>k. k < num_windows L step \<longleftrightarrow> int k * step < int L)
         \<and> sorted_wrt (<) (map (\<lambda>t. fst (snd t)) (chunk_text text c ov))"
proof -
  have step1: "1 \<le> step" by (simp add: step_def)
  have eq: "\<And>s. s \<in> set (window_starts L step) \<Longrightarrow>
      window_chunk lines c s = window_text lines (nat s) (nat (min (int L) (s + c)))"
    using window_starts_range[OF step1] window_chunk_text[of _ lines c] \<open>0 < c\<close>
    by (simp add: L_def lines_def)
  have closed: "chunk_text text c ov =
      map (\<lambda>s. (window_chunk lines c s, s + 1, min (int L) (s + c)))
        (filter (\<lambda>s. window_chunk lines c s \<noteq> []) (window_starts L step))"
    by (simp add: chunk_text_closed map_filter_loop_body lines_def L_def step_def)
  have first: "chunk_text text c ov =
           map (\<lambda>s. (window_text lines (nat s) (nat (min (int L) (s + c))),
                      s + 1, min (int L) (s + c)))
             (filter (\<lambda>s. window_text lines (nat s) (nat (min (int L) (s + c))) \<noteq> [])
                (window_starts L step))"
  proof -
    have f: "filter (\<lambda>s. window_chunk lines c s \<noteq> []) (window_starts L step) =
             filter (\<lambda>s. window_text lines (nat s) (nat (min (int L) (s + c))) \<noteq> [])
               (window_starts L step)"
      by (rule filter_cong[OF refl]) (simp add: eq)
    have m: "map (\<lambda>s. (window_chunk lines c s, s + 1, min (int L) (s + c)))
               (filter (\<lambda>s. window_chunk lines c s \<noteq> []) (window_starts L step)) =
             map (\<lambda>s. (window_text lines (nat s) (nat (min (int L) (s + c))),
                        s + 1, min (int L) (s + c)))
               (filter (\<lambda>s. window_chunk lines c s \<noteq> []) (window_starts L step))"
      by (rule map_cong[OF refl]) (simp add: eq)
    show ?thesis using closed m f by (simp only:)
  qed
  have "map (\<lambda>t. fst (snd t)) (chunk_text text c ov) =
          map (\<lambda>s. s + 1) (filter (\<lambda>s. window_chunk lines c s \<noteq> []) (window_starts L step))"
    by (simp add: closed o_def)
  moreover have "sorted_wrt (<) (filter (\<lambda>s. window_chunk lines c s \<noteq> []) (window_starts L step))"
    using sorted_window_starts[OF step1] by (rule sorted_wrt_filter)
  then have "sorted_wrt (\<lambda>a b. a + 1 < b + 1)
      (filter (\<lambda>s. window_chunk lines c s \<noteq> []) (window_starts L step))"
    by (rule sorted_wrt_mono_rel[rotated]) simp
  ultimately have srt: "sorted_wrt (<) (map (\<lambda>t. fst (snd t)) (chunk_text text c ov))"
    by (simp only: sorted_wrt_map)
  have ws: "window_starts L step = map (\<lambda>k. int k * step) [0..<num_windows L step]"
    by (simp add: window_starts_def)
  have nw: "\<forall>k. k < num_windows L step \<longleftrightarrow> int k * step < int L"
    using num_windows_less[OF step1] by blast
  from first ws nw srt show ?thesis by (intro conjI)
qed

theorem chunk_text_windows_witness:
  "0 < length (splitlines [97, 10, 98, 10, 99]) \<and> (0::int) < 2
   \<and> chunk_text [97, 10, 98, 10, 99] 2 1
       = [([97, 10, 98], 1, 2), ([98, 10, 99], 2, 3), ([99], 3, 3)]
   \<and> window_starts 3 1 = [0, 1, 2]
   \<and> num_windows 3 1 = 3"
  using chunk_text_windows[of "[97, 10, 98, 10, 99]" 2 1]
  by (simp add: splitlines_def is_linebreak_def window_text_def strip_def is_space_def
      window_starts_def num_windows_def upt_rec)

section \<open>Properties of batching\<close>

lemma batched_loop_concat:
  "concat (batched_loop xs B batch) = batch @ xs"
  by (induction xs arbitrary: batch) auto

lemma batched_loop_lengths:
  "0 < B \<Longrightarrow> int (length batch) < B \<Longrightarrow> b \<in> set (batched_loop xs B batch) \<Longrightarrow>
     1 \<le> length b \<and> int (length b) \<le> B"
proof (induction xs arbitrary: batch)
  case Nil
  then show ?case by (auto split: if_splits simp: Suc_le_eq)
next
  case (Cons x xs)
  show ?case
  proof (cases "int (length (batch @ [x])) \<ge> B")
    case True
    with Cons.prems have "b = batch @ [x] \<or> b \<in> set (batched_loop xs B [])" by auto
    then show ?thesis
    proof
      assume "b = batch @ [x]"
      with True Cons.prems show ?thesis by auto
    next
      assume "b \<in> set (batched_loop xs B [])"
      with Cons.IH[of "[]"] Cons.prems show ?thesis by auto
    qed
  next
    case False
    with Cons.prems have "b \<in> set (batched_loop xs B (batch @ [x]))" by auto
    with Cons.IH[of "batch @ [x]"] False Cons.prems show ?thesis by auto
  qed
qed

lemma batched_loop_butlast:
  "int (length batch) < B \<Longrightarrow> b \<in> set (butlast (batched_loop xs B batch)) \<Longrightarrow>
     int (length b) = B"
proof (induction xs arbitrary: batch)
  case Nil
  then show ?case by (auto split: if_splits)
next
  case (Cons x xs)
  show ?case
  proof (cases "int (length (batch @ [x])) \<ge> B")
    case True
    with Cons.prems have "b = batch @ [x] \<or> b \<in> set (butlast (batched_loop xs B []))"
      by (auto split: if_splits)
    then show ?thesis
    proof
      assume "b = batch @ [x]"
      with True Cons.prems show ?thesis by auto
    next
      assume "b \<in> set (butlast (batched_loop xs B []))"
      with Cons.IH[of "[]"] Cons.prems show ?thesis by auto
    qed
  next
    case False
    with Cons.prems have "b \<in> set (butlast (batched_loop xs B (batch @ [x])))" by auto
    with Cons.IH[of "batch @ [x]"] False show ?thesis by auto
  qed
qed

text \<open>
  Claim C7. For a positive batch size \<open>B\<close>, the batches yielded by \<open>batched\<close> concatenate
  back to the input in order, every batch but the last has exactly \<open>B\<close> elements, the last
  has between one and \<open>B\<close>, no batch is empty, and an empty input yields no batch.
\<close>

theorem batched_partition:
  "0 < B \<Longrightarrow>
     concat (batched xs B) = xs
     \<and> (\<forall>b \<in> set (butlast (batched xs B)). int (length b) = B)
     \<and> (batched xs B \<noteq> [] \<longrightarrow>
          1 \<le> length (last (batched xs B)) \<and> int (length (last (batched xs B))) \<le> B)
     \<and> [] \<notin> set (batched xs B)
     \<and> batched ([] :: 'a list) B = []"
proof -
  assume B: "0 < B"
  have c: "concat (batched xs B) = xs"
    by (simp add: batched_def batched_loop_concat)
  have bl: "\<forall>b \<in> set (butlast (batched xs B)). int (length b) = B"
    using batched_loop_butlast[of "[]" B _ xs] B by (simp add: batched_def)
  have mem: "\<And>b. b \<in> set (batched xs B) \<Longrightarrow> 1 \<le> length b \<and> int (length b) \<le> B"
    using batched_loop_lengths[of B "[]" _ xs] B by (simp add: batched_def)
  have la: "batched xs B \<noteq> [] \<longrightarrow>
          1 \<le> length (last (batched xs B)) \<and> int (length (last (batched xs B))) \<le> B"
    using mem[of "last (batched xs B)"] by simp
  have ne: "[] \<notin> set (batched xs B)"
    using mem[of "[]"] by auto
  have em: "batched ([] :: 'a list) B = []"
    by (simp add: batched_def)
  from c bl la ne em show ?thesis by blast
qed

theorem batched_partition_witness:
  "(0::int) < 2
   \<and> batched [1, 2, 3, 4, 5 :: nat] 2 = [[1, 2], [3, 4], [5]]
   \<and> concat (batched [1, 2, 3, 4, 5 :: nat] 2) = [1, 2, 3, 4, 5]
   \<and> map length (butlast (batched [1, 2, 3, 4, 5 :: nat] 2)) = [2, 2]
   \<and> length (last (batched [1, 2, 3, 4, 5 :: nat] 2)) = 1
   \<and> [] \<notin> set (batched [1, 2, 3, 4, 5 :: nat] 2)"
  using batched_partition[of 2 "[1, 2, 3, 4, 5 :: nat]"]
  by (simp add: batched_def)

section \<open>White space and dropped windows\<close>

lemma strip_eq_Nil: "strip s = [] \<longleftrightarrow> (\<forall>ch \<in> set s. is_space ch)"
proof
  assume "strip s = []"
  then have all: "\<forall>x \<in> set (dropWhile is_space s). is_space x"
    by (simp add: strip_def dropWhile_eq_Nil_conv)
  have "dropWhile is_space s = []"
  proof (rule ccontr)
    assume ne: "dropWhile is_space s \<noteq> []"
    then have "\<not> is_space (hd (dropWhile is_space s))" by (rule hd_dropWhile)
    moreover have "hd (dropWhile is_space s) \<in> set (dropWhile is_space s)"
      using ne by simp
    ultimately show False using all by blast
  qed
  then show "\<forall>ch \<in> set s. is_space ch" by (simp add: dropWhile_eq_Nil_conv)
next
  assume "\<forall>ch \<in> set s. is_space ch"
  then have h: "dropWhile is_space s = []" by (simp add: dropWhile_eq_Nil_conv)
  show "strip s = []" by (simp only: strip_def h dropWhile.simps rev.simps)
qed

lemma set_join: "set (join sep ws) \<subseteq> set sep \<union> \<Union>(set ` set ws)"
  by (induction sep ws rule: join.induct) auto

lemma in_splitlines_from:
  "l \<in> set (splitlines_from cur s) \<Longrightarrow> x \<in> set l \<Longrightarrow> x \<in> set cur \<or> x \<in> set s"
proof (induction cur s rule: splitlines_from.induct)
  case (1 cur)
  then show ?case by (auto split: if_splits)
next
  case (2 cur ch)
  then show ?case by (auto split: if_splits)
next
  case (3 cur ch ch2 rest)
  show ?case
  proof (cases "is_linebreak ch")
    case False
    with 3 show ?thesis by auto
  next
    case lb: True
    show ?thesis
    proof (cases "ch = 13 \<and> ch2 = 10")
      case True
      with lb 3 show ?thesis by auto
    next
      case False
      with lb 3 show ?thesis by auto
    qed
  qed
qed

lemma set_splitlines_from:
  "\<Union>(set ` set (splitlines_from cur s)) \<subseteq> set cur \<union> set s"
  using in_splitlines_from by fastforce

lemma set_py_slice: "set (py_slice xs a b) \<subseteq> set xs"
proof -
  have "set (py_slice xs a b) \<subseteq> set (drop (slice_index (length xs) a) xs)"
    by (simp add: py_slice_def Let_def set_take_subset)
  also have "\<dots> \<subseteq> set xs" by (rule set_drop_subset)
  finally show ?thesis .
qed

lemma window_chunk_space:
  assumes "\<forall>ch \<in> set s. is_space ch"
  shows "window_chunk (splitlines s) c start = []"
proof -
  have sp10: "is_space 10" by (simp add: is_space_def)
  have "\<Union>(set ` set (splitlines s)) \<subseteq> set s"
    using set_splitlines_from[of "[]" s] by (simp add: splitlines_def)
  moreover have "set (py_slice (splitlines s) start (min (int (length (splitlines s))) (start + c)))
                  \<subseteq> set (splitlines s)"
    by (rule set_py_slice)
  ultimately have "\<Union>(set ` set (py_slice (splitlines s) start
                      (min (int (length (splitlines s))) (start + c)))) \<subseteq> set s"
    by blast
  with set_join[of "[10]" "py_slice (splitlines s) start
                      (min (int (length (splitlines s))) (start + c))"]
  have "set (join [10] (py_slice (splitlines s) start
                      (min (int (length (splitlines s))) (start + c)))) \<subseteq> insert 10 (set s)"
    by auto
  with assms sp10 have "\<forall>ch \<in> set (join [10] (py_slice (splitlines s) start
                      (min (int (length (splitlines s))) (start + c)))). is_space ch"
    by auto
  then show ?thesis by (simp add: window_chunk_def strip_eq_Nil)
qed

lemma chunk_text_filter:
  "chunk_text s c ov =
     map (\<lambda>st. (window_chunk (splitlines s) c st, st + 1,
                 min (int (length (splitlines s))) (st + c)))
       (filter (\<lambda>st. window_chunk (splitlines s) c st \<noteq> [])
          (window_starts (length (splitlines s)) (max 1 (c - ov))))"
  by (simp only: chunk_text_closed map_filter_loop_body)

text \<open>
  Claim C5. A text that is empty or holds only white space yields nothing. For every text,
  \<open>chunk_lines\<close> and \<open>chunk_overlap\<close>, what is yielded is, for each window start
  \<open>0, step, 2 * step, ...\<close> below the number of lines whose window text is not empty, the
  lines of the window joined by newlines and stripped, with its line range: a window whose
  text strips to empty yields nothing, and the starts do not depend on which windows yield.
\<close>

theorem chunk_text_strip:
  "((\<forall>ch \<in> set text. is_space ch) \<longrightarrow> chunk_text text c ov = [])
   \<and> chunk_text text c ov =
       map (\<lambda>s. (strip (join [10] (py_slice (splitlines text) s
                                     (min (int (length (splitlines text))) (s + c)))),
                  s + 1, min (int (length (splitlines text))) (s + c)))
         (filter (\<lambda>s. strip (join [10] (py_slice (splitlines text) s
                                     (min (int (length (splitlines text))) (s + c)))) \<noteq> [])
            (window_starts (length (splitlines text)) (max 1 (c - ov))))"
proof (intro conjI impI)
  assume "\<forall>ch \<in> set text. is_space ch"
  then have "\<And>st. window_chunk (splitlines text) c st = []"
    by (rule window_chunk_space)
  then show "chunk_text text c ov = []"
    by (simp add: chunk_text_filter)
next
  show "chunk_text text c ov =
       map (\<lambda>s. (strip (join [10] (py_slice (splitlines text) s
                                     (min (int (length (splitlines text))) (s + c)))),
                  s + 1, min (int (length (splitlines text))) (s + c)))
         (filter (\<lambda>s. strip (join [10] (py_slice (splitlines text) s
                                     (min (int (length (splitlines text))) (s + c)))) \<noteq> [])
            (window_starts (length (splitlines text)) (max 1 (c - ov))))"
    using chunk_text_filter[of "text" c ov] by (simp only: window_chunk_def)
qed

theorem chunk_text_strip_witness:
  "chunk_text [32, 10, 9, 13, 10, 12288] 2 1 = []
   \<and> chunk_text [97, 10, 32, 10, 32, 98] 1 0 = [([97], 1, 1), ([98], 3, 3)]"
proof -
  have sp: "\<forall>ch \<in> set [32, 10, 9, 13, 10, 12288]. is_space ch"
    by (simp add: is_space_def)
  have a: "chunk_text [32, 10, 9, 13, 10, 12288] 2 1 = []"
    using chunk_text_strip[of "[32, 10, 9, 13, 10, 12288]" 2 1, THEN conjunct1] sp by (rule mp)
  have sl: "splitlines [97, 10, 32, 10, 32, 98] = [[97], [32], [32, 98]]"
    by (simp add: splitlines_def is_linebreak_def)
  have ws: "window_starts 3 (max 1 (1 - 0)) = [0, 1, 2]"
    by (simp add: window_starts_def num_windows_def upt_rec)
  have len: "length [[97], [32], [32, 98::nat]] = 3" by simp
  have w0: "strip (join [10] (py_slice [[97], [32], [32, 98]] 0 1)) = [97]"
    by (simp add: py_slice_def slice_index_def strip_def is_space_def)
  have w1: "strip (join [10] (py_slice [[97], [32], [32, 98]] 1 2)) = []"
    by (simp add: py_slice_def slice_index_def strip_def is_space_def)
  have w2: "strip (join [10] (py_slice [[97], [32], [32, 98]] 2 3)) = [98]"
    by (simp add: py_slice_def slice_index_def strip_def is_space_def)
  have b: "chunk_text [97, 10, 32, 10, 32, 98] 1 0 = [([97], 1, 1), ([98], 3, 3)]"
    using chunk_text_strip[of "[97, 10, 32, 10, 32, 98]" 1 0, THEN conjunct2]
    unfolding sl len ws
    by (simp add: w0 w1 w2)
  from a b show ?thesis by (rule conjI)
qed

section \<open>The number of chunks and the last chunk\<close>

lemma num_windows_pos:
  assumes "1 \<le> step" and "0 < L"
  shows "0 < num_windows L step"
  using num_windows_less[OF assms(1), of 0 L] assms(2) by simp

lemma int_num_windows:
  assumes "1 \<le> step"
  shows "int (num_windows L step) = \<lceil>real L / real_of_int step\<rceil>"
proof -
  have "0 \<le> real L / real_of_int step" using assms by simp
  then have "0 \<le> \<lceil>real L / real_of_int step\<rceil>" by (simp add: ceiling_le_iff[symmetric] le_ceiling_iff)
  then show ?thesis by (simp add: num_windows_def)
qed

lemma length_chunk_text:
  "length (chunk_text s c ov) + 
     length (filter (\<lambda>st. window_chunk (splitlines s) c st = [])
        (window_starts (length (splitlines s)) (max 1 (c - ov))))
   = num_windows (length (splitlines s)) (max 1 (c - ov))"
proof -
  have "length (filter (\<lambda>st. window_chunk (splitlines s) c st \<noteq> [])
          (window_starts (length (splitlines s)) (max 1 (c - ov))))
        + length (filter (\<lambda>st. \<not> window_chunk (splitlines s) c st \<noteq> [])
          (window_starts (length (splitlines s)) (max 1 (c - ov))))
        = length (window_starts (length (splitlines s)) (max 1 (c - ov)))"
    by (rule sum_length_filter_compl)
  then show ?thesis
    by (simp add: chunk_text_filter window_starts_def)
qed

lemma window_starts_snoc:
  assumes "0 < num_windows L step"
  shows "window_starts L step =
           map (\<lambda>k. int k * step) [0..<num_windows L step - 1]
           @ [int (num_windows L step - 1) * step]"
proof -
  obtain m where m: "num_windows L step = Suc m" using assms by (cases "num_windows L step") auto
  show ?thesis by (simp add: window_starts_def m)
qed

lemma last_chunk_text:
  assumes "0 < length (splitlines s)"
    and "window_chunk (splitlines s) c
           (int (num_windows (length (splitlines s)) (max 1 (c - ov)) - 1) * max 1 (c - ov)) \<noteq> []"
  shows "chunk_text s c ov \<noteq> []
         \<and> snd (snd (last (chunk_text s c ov)))
             = min (int (length (splitlines s)))
                 (int (num_windows (length (splitlines s)) (max 1 (c - ov)) - 1) * max 1 (c - ov) + c)"
proof -
  have pos: "0 < num_windows (length (splitlines s)) (max 1 (c - ov))"
    using assms(1) by (intro num_windows_pos) simp_all
  show ?thesis
    using assms(2)
    by (simp add: chunk_text_filter window_starts_snoc[OF pos])
qed

text \<open>
  Claim C3, as amended. For a text of \<open>L > 0\<close> lines and \<open>0 \<le> chunk_overlap < chunk_lines\<close>,
  the number of chunks yielded is \<open>ceil(L / max(1, c - o))\<close> minus the number of windows
  whose text strips to empty; and when the text of the last window (the one starting at
  \<open>(ceil(L / step) - 1) * step\<close>) does not strip to empty, the last chunk yielded ends at
  line \<open>L\<close>.
\<close>

theorem chunk_text_count:
  assumes "0 < length (splitlines text)" and "0 \<le> ov" and "ov < c"
  shows "int (length (chunk_text text c ov))
           = \<lceil>real (length (splitlines text)) / real_of_int (max 1 (c - ov))\<rceil>
             - int (length (filter
                 (\<lambda>s. window_text (splitlines text) (nat s)
                        (nat (min (int (length (splitlines text))) (s + c))) = [])
                 (window_starts (length (splitlines text)) (max 1 (c - ov)))))
         \<and> (window_text (splitlines text)
                (nat ((\<lceil>real (length (splitlines text)) / real_of_int (max 1 (c - ov))\<rceil> - 1)
                      * max 1 (c - ov)))
                (length (splitlines text)) \<noteq> []
              \<longrightarrow> chunk_text text c ov \<noteq> []
                  \<and> snd (snd (last (chunk_text text c ov))) = int (length (splitlines text)))"
proof -
  define lines where "lines = splitlines text"
  define L where "L = length lines"
  define step where "step = max 1 (c - ov)"
  define n where "n = num_windows L step"
  have step1: "1 \<le> step" by (simp add: step_def)
  have cpos: "0 < c" using assms(2,3) by simp
  have Lpos: "0 < L" using assms(1) by (simp add: L_def lines_def)
  have npos: "0 < n" unfolding n_def using step1 Lpos by (rule num_windows_pos)
  have nint: "int n = \<lceil>real L / real_of_int step\<rceil>"
    unfolding n_def using step1 by (rule int_num_windows)
  have eq: "\<And>s. s \<in> set (window_starts L step) \<Longrightarrow>
      window_chunk lines c s = window_text lines (nat s) (nat (min (int L) (s + c)))"
    using window_starts_range[OF step1] window_chunk_text[of _ lines c] cpos
    by (simp add: L_def)
  have f: "filter (\<lambda>s. window_chunk lines c s = []) (window_starts L step) =
           filter (\<lambda>s. window_text lines (nat s) (nat (min (int L) (s + c))) = [])
             (window_starts L step)"
    by (rule filter_cong[OF refl]) (simp add: eq)
  have "length (chunk_text text c ov)
          + length (filter (\<lambda>s. window_chunk lines c s = []) (window_starts L step)) = n"
    using length_chunk_text[of "text" c ov] by (simp add: lines_def L_def step_def n_def)
  then have "int (length (chunk_text text c ov))
          = int n - int (length (filter (\<lambda>s. window_chunk lines c s = []) (window_starts L step)))"
    by linarith
  then have count: "int (length (chunk_text text c ov))
          = \<lceil>real L / real_of_int step\<rceil>
            - int (length (filter
                (\<lambda>s. window_text lines (nat s) (nat (min (int L) (s + c))) = [])
                (window_starts L step)))"
    by (simp only: nint f)
  define sl where "sl = int (n - 1) * step"
  have sl_eq: "sl = (\<lceil>real L / real_of_int step\<rceil> - 1) * step"
    using npos nint by (simp add: sl_def of_nat_diff)
  have sl_lt: "sl < int L"
    using num_windows_less[OF step1, of "n - 1" L] npos by (simp add: sl_def n_def)
  have sl_ge: "0 \<le> sl" using step1 by (simp add: sl_def)
  have "\<not> int n * step < int L"
    using num_windows_less[OF step1, of n L] by (simp add: n_def)
  moreover have "int n * step = sl + step"
    using npos by (simp add: sl_def of_nat_diff algebra_simps)
  moreover have "step \<le> c" using assms(2,3) by (simp add: step_def)
  ultimately have endL: "min (int L) (sl + c) = int L" by linarith
  have wl: "window_chunk lines c sl = window_text lines (nat sl) L"
    using window_chunk_text[OF sl_ge _ cpos, of lines] sl_lt endL by (simp add: L_def)
  have lastp: "window_text lines (nat sl) L \<noteq> [] \<longrightarrow>
      chunk_text text c ov \<noteq> [] \<and> snd (snd (last (chunk_text text c ov))) = int L"
  proof
    assume "window_text lines (nat sl) L \<noteq> []"
    then have "window_chunk (splitlines text) c
           (int (num_windows (length (splitlines text)) (max 1 (c - ov)) - 1) * max 1 (c - ov)) \<noteq> []"
      using wl by (simp add: lines_def L_def step_def n_def sl_def)
    from last_chunk_text[OF assms(1) this]
    show "chunk_text text c ov \<noteq> [] \<and> snd (snd (last (chunk_text text c ov))) = int L"
      using endL by (simp add: lines_def L_def step_def n_def sl_def)
  qed
  from count lastp show ?thesis
    unfolding sl_eq unfolding lines_def L_def step_def by (rule conjI)
qed

theorem chunk_text_count_witness:
  "0 < length (splitlines [97, 10, 98, 10, 99]) \<and> (0::int) \<le> 1 \<and> (1::int) < 2
   \<and> int (length (chunk_text [97, 10, 98, 10, 99] 2 1)) = 3
   \<and> snd (snd (last (chunk_text [97, 10, 98, 10, 99] 2 1))) = 3"
proof -
  have sl: "splitlines [97, 10, 98, 10, 99] = [[97], [98], [99]]"
    by (simp add: splitlines_def is_linebreak_def)
  have h1: "0 < length (splitlines [97, 10, 98, 10, 99])" by (simp add: sl)
  have h2: "(0::int) \<le> 1" and h3: "(1::int) < 2" by simp_all
  have ws: "window_starts 3 (max 1 (2 - 1)) = [0, 1, 2]"
    by (simp add: window_starts_def num_windows_def upt_rec)
  have len: "length [[97], [98], [99::nat]] = 3" by simp
  have w0: "window_text [[97], [98], [99]] 0 2 = [97, 10, 98]"
    by (simp add: window_text_def strip_def is_space_def)
  have w1: "window_text [[97], [98], [99]] (Suc 0) 3 = [98, 10, 99]"
    by (simp add: window_text_def strip_def is_space_def)
  have w2: "window_text [[97], [98], [99]] 2 3 = [99]"
    by (simp add: window_text_def strip_def is_space_def)
  show ?thesis
    using chunk_text_count[OF h1 h2 h3] h1
    unfolding sl len ws
    by (simp add: w0 w1 w2)
qed

text \<open>
  The claim as stated, that the last chunk yielded always ends at line \<open>L\<close>, fails when the
  last window holds only white space: the text of the two lines \<open>a\<close> and a single blank,
  with one line per chunk, yields the single chunk of line 1.
\<close>

theorem chunk_text_last_end_counterexample:
  "length (splitlines [97, 10, 32]) = 2
   \<and> chunk_text [97, 10, 32] 1 0 = [([97], 1, 1)]
   \<and> snd (snd (last (chunk_text [97, 10, 32] 1 0))) \<noteq> 2"
proof -
  have sl: "splitlines [97, 10, 32] = [[97], [32]]"
    by (simp add: splitlines_def is_linebreak_def)
  have ws: "window_starts 2 (max 1 (1 - 0)) = [0, 1]"
    by (simp add: window_starts_def num_windows_def upt_rec)
  have len: "length [[97], [32::nat]] = 2" by simp
  have w0: "window_chunk [[97], [32]] 1 0 = [97]"
    by (simp add: window_chunk_def py_slice_def slice_index_def strip_def is_space_def)
  have w1: "window_chunk [[97], [32]] 1 1 = []"
    by (simp add: window_chunk_def py_slice_def slice_index_def strip_def is_space_def)
  have v: "chunk_text [97, 10, 32] 1 0 = [([97], 1, 1)]"
    unfolding chunk_text_filter sl len ws by (simp add: w0 w1)
  show ?thesis unfolding v sl by simp
qed

section \<open>Chunk ids and the 100-line scenario\<close>

lemma doc_id_file_chunks:
  "map doc_id (file_chunks rel sd coll s c ov) =
     map (\<lambda>n. rel @ py ''::'' @ str_nat n) [0..<length (chunk_text s c ov)]"
proof -
  have "map doc_id (file_chunks rel sd coll s c ov) =
          map ((\<lambda>n. rel @ py ''::'' @ str_nat n) \<circ> fst) (List.enumerate 0 (chunk_text s c ov))"
    by (simp add: file_chunks_def split_def o_def)
  also have "\<dots> = map (\<lambda>n. rel @ py ''::'' @ str_nat n)
                     (map fst (List.enumerate 0 (chunk_text s c ov)))"
    by (simp only: map_map)
  also have "\<dots> = map (\<lambda>n. rel @ py ''::'' @ str_nat n) [0..<length (chunk_text s c ov)]"
    by (simp only: map_fst_enumerate add_0)
  finally show ?thesis .
qed

lemma doc_id_discover_files:
  "map doc_id (discover_files paths sd c ov coll) =
     concat (map (\<lambda>p. case read_text p of
                         None \<Rightarrow> []
                       | Some s \<Rightarrow> map (\<lambda>n. as_posix (relative_parts p) @ py ''::'' @ str_nat n)
                                     [0..<length (chunk_text s c ov)]) paths)"
  by (induction paths) (simp_all add: doc_id_file_chunks split: option.splits)

lemma length_chunk_text_filter:
  "length (chunk_text s c ov) =
     length (filter (\<lambda>st. window_chunk (splitlines s) c st \<noteq> [])
        (window_starts (length (splitlines s)) (max 1 (c - ov))))"
  by (simp add: chunk_text_filter)

lemma window_starts_100: "window_starts 100 (max 1 (40 - 10)) = [0, 30, 60, 90]"
  by (simp add: window_starts_def num_windows_def upt_rec)

lemma chunk_ranges_100:
  assumes "length (splitlines s) = 100"
    and "\<forall>st \<in> set (window_starts 100 (max 1 (40 - 10))). window_chunk (splitlines s) 40 st \<noteq> []"
  shows "map snd (chunk_text s 40 10) = [(1, 40), (31, 70), (61, 100), (91, 100)]"
proof -
  have ne: "window_chunk (splitlines s) 40 0 \<noteq> []" "window_chunk (splitlines s) 40 30 \<noteq> []"
    "window_chunk (splitlines s) 40 60 \<noteq> []" "window_chunk (splitlines s) 40 90 \<noteq> []"
    using assms(2) unfolding window_starts_100 by simp_all
  show ?thesis
    unfolding chunk_text_filter assms(1) window_starts_100 using ne by simp
qed

lemma splitlines_from_a_nl:
  "splitlines_from [] (97 # 10 # t) = [97] # splitlines_from [] t"
  by (cases t) (simp_all add: is_linebreak_def)

lemma splitlines_replicate:
  "splitlines (concat (replicate n [97, 10])) = replicate n [97]"
  by (induction n) (simp_all add: splitlines_def splitlines_from_a_nl del: splitlines_from.simps(3))

lemma join_replicate_nonspace:
  assumes "0 < m"
  shows "97 \<in> set (join sep (replicate m [97]))"
proof -
  obtain k where m: "m = Suc k" using assms by (cases m) auto
  show ?thesis by (cases k) (simp_all add: m)
qed

lemma window_chunk_replicate:
  assumes "0 \<le> st" and "st < int n" and "0 < c"
  shows "window_chunk (replicate n [97]) c st \<noteq> []"
proof -
  define m where "m = min (nat (min (int n) (st + c)) - nat st) (n - nat st)"
  have mpos: "0 < m" using assms by (auto simp: m_def min_def)
  have "window_chunk (replicate n [97]) c st
          = window_text (replicate n [97]) (nat st) (nat (min (int n) (st + c)))"
    using window_chunk_text[OF assms(1) _ assms(3), of "replicate n [97]"] assms(2) by simp
  also have "\<dots> = strip (join [10] (replicate m [97]))"
    by (simp add: window_text_def m_def)
  finally have eq: "window_chunk (replicate n [97]) c st = strip (join [10] (replicate m [97]))" .
  have "\<not> is_space 97" by (simp add: is_space_def)
  with join_replicate_nonspace[OF mpos, of "[10]"]
  have "\<not> (\<forall>ch \<in> set (join [10] (replicate m [97])). is_space ch)" by blast
  then show ?thesis by (simp add: eq strip_eq_Nil)
qed

lemma windows_100_a:
  "\<forall>st \<in> set (window_starts 100 (max 1 (40 - 10))).
      window_chunk (splitlines (concat (replicate 100 [97, 10]))) 40 st \<noteq> []"
  unfolding window_starts_100 splitlines_replicate
  by (simp add: window_chunk_replicate)

lemma doc_id_one_file:
  assumes "iter_code_files lower [path] extensions include_hidden max_file_mb = ([path], None)"
    and "read_text path = Some s"
  shows "map doc_id (fst (discover_chunks lower [path] source_dir extensions include_hidden
                       max_file_mb c ov collection))
         = map (\<lambda>n. as_posix (relative_parts path) @ py ''::'' @ str_nat n)
             [0..<length (chunk_text s c ov)]"
  unfolding discover_chunks_def assms(1)
  by (simp add: assms(2) doc_id_file_chunks)

text \<open>
  Claim C2, as amended. Ingesting a file of 100 lines none of whose windows is all white
  space, with \<open>chunk_lines = 40\<close> and \<open>chunk_overlap = 10\<close>, gives step 30 and the four
  window starts 0, 30, 60 and 90, hence exactly four chunks, covering the lines 1-40, 31-70,
  61-100 and 91-100, with the ids \<open><relative_path>::0\<close> to \<open><relative_path>::3\<close>.
\<close>

theorem ingest_100_lines:
  assumes "length (splitlines text) = 100"
    and "\<forall>s \<in> set (window_starts 100 (max 1 (40 - 10))).
           window_chunk (splitlines text) 40 s \<noteq> []"
    and "iter_code_files lower [path] extensions include_hidden max_file_mb = ([path], None)"
    and "read_text path = Some text"
  shows "window_starts 100 (max 1 (40 - 10)) = [0, 30, 60, 90]
         \<and> map snd (chunk_text text 40 10) = [(1, 40), (31, 70), (61, 100), (91, 100)]
         \<and> map doc_id (fst (discover_chunks lower [path] source_dir extensions include_hidden
                         max_file_mb 40 10 collection))
             = [as_posix (relative_parts path) @ py ''::0'',
                as_posix (relative_parts path) @ py ''::1'',
                as_posix (relative_parts path) @ py ''::2'',
                as_posix (relative_parts path) @ py ''::3'']
         \<and> snd (discover_chunks lower [path] source_dir extensions include_hidden
                   max_file_mb 40 10 collection) = None"
proof -
  have r: "map snd (chunk_text text 40 10) = [(1, 40), (31, 70), (61, 100), (91, 100)]"
    using assms(1,2) by (rule chunk_ranges_100)
  then have "length (map snd (chunk_text text 40 10)) = 4" by simp
  then have len: "length (chunk_text text 40 10) = 4" by simp
  have ids: "map doc_id (fst (discover_chunks lower [path] source_dir extensions include_hidden
                         max_file_mb 40 10 collection))
             = [as_posix (relative_parts path) @ py ''::0'',
                as_posix (relative_parts path) @ py ''::1'',
                as_posix (relative_parts path) @ py ''::2'',
                as_posix (relative_parts path) @ py ''::3'']"
    unfolding doc_id_one_file[OF assms(3,4)] len
    by (simp add: upt_rec str_nat.simps py_def)
  have ok: "snd (discover_chunks lower [path] source_dir extensions include_hidden
                   max_file_mb 40 10 collection) = None"
    unfolding discover_chunks_def assms(3) by simp
  from window_starts_100 r ids ok show ?thesis by (intro conjI)
qed

lemma select_one_file:
  "iter_code_files id
     [\<lparr>relative_parts = [[102, 46, 112, 121]], is_file = Inr True, suffix = [46, 112, 121],
       st_size = Some 200, read_text = Some (concat (replicate 100 [97, 10]))\<rparr>]
     [[46, 112, 121]] False (Finite 2)
   = ([\<lparr>relative_parts = [[102, 46, 112, 121]], is_file = Inr True, suffix = [46, 112, 121],
       st_size = Some 200, read_text = Some (concat (replicate 100 [97, 10]))\<rparr>], None)"
  by (simp add: startswith_def)

theorem ingest_100_lines_witness:
  "length (splitlines (concat (replicate 100 [97, 10]))) = 100
   \<and> window_starts 100 (max 1 (40 - 10)) = [0, 30, 60, 90]
   \<and> map snd (chunk_text (concat (replicate 100 [97, 10])) 40 10)
       = [(1, 40), (31, 70), (61, 100), (91, 100)]
   \<and> map doc_id (fst (discover_chunks id
         [\<lparr>relative_parts = [[102, 46, 112, 121]], is_file = Inr True, suffix = [46, 112, 121],
           st_size = Some 200, read_text = Some (concat (replicate 100 [97, 10]))\<rparr>]
         [47, 115] [[46, 112, 121]] False (Finite 2) 40 10 [99]))
       = [[102, 46, 112, 121, 58, 58, 48], [102, 46, 112, 121, 58, 58, 49],
          [102, 46, 112, 121, 58, 58, 50], [102, 46, 112, 121, 58, 58, 51]]"
proof -
  have h1: "length (splitlines (concat (replicate 100 [97, 10]))) = 100"
    by (simp add: splitlines_replicate)
  have h4: "read_text \<lparr>relative_parts = [[102, 46, 112, 121]], is_file = Inr True,
              suffix = [46, 112, 121], st_size = Some 200,
              read_text = Some (concat (replicate 100 [97, 10]))\<rparr>
            = Some (concat (replicate 100 [97, 10]))"
    by simp
  show ?thesis
    using ingest_100_lines[OF h1 windows_100_a select_one_file h4, of "[47, 115]" "[99]"] h1
    by (simp add: as_posix_def py_def)
qed

text \<open>
  The claim as stated expects three chunks. The window starting at line offset 90 is below
  100, so the loop runs a fourth time: a file of 100 lines \<open>a\<close> yields four chunks, the
  last one for the lines 91-100.
\<close>

theorem ingest_100_lines_counterexample:
  "length (splitlines (concat (replicate 100 [97, 10]))) = 100
   \<and> map snd (chunk_text (concat (replicate 100 [97, 10])) 40 10)
       = [(1, 40), (31, 70), (61, 100), (91, 100)]
   \<and> length (chunk_text (concat (replicate 100 [97, 10])) 40 10) \<noteq> 3
   \<and> map doc_id (fst (discover_chunks id
         [\<lparr>relative_parts = [[102]], is_file = Inr True, suffix = [],
           st_size = Some 200, read_text = Some (concat (replicate 100 [97, 10]))\<rparr>]
         [47, 115] [] False (Finite 2) 40 10 [99]))
       = [[102, 58, 58, 48], [102, 58, 58, 49], [102, 58, 58, 50], [102, 58, 58, 51]]"
proof -
  have h1: "length (splitlines (concat (replicate 100 [97, 10]))) = 100"
    by (simp add: splitlines_replicate)
  have r: "map snd (chunk_text (concat (replicate 100 [97, 10])) 40 10)
             = [(1, 40), (31, 70), (61, 100), (91, 100)]"
    using h1 windows_100_a by (rule chunk_ranges_100)
  then have "length (map snd (chunk_text (concat (replicate 100 [97, 10])) 40 10)) = 4"
    by simp
  then have len: "length (chunk_text (concat (replicate 100 [97, 10])) 40 10) = 4"
    by simp
  have sel: "iter_code_files id
     [\<lparr>relative_parts = [[102]], is_file = Inr True, suffix = [],
       st_size = Some 200, read_text = Some (concat (replicate 100 [97, 10]))\<rparr>]
     [] False (Finite 2)
   = ([\<lparr>relative_parts = [[102]], is_file = Inr True, suffix = [],
       st_size = Some 200, read_text = Some (concat (replicate 100 [97, 10]))\<rparr>], None)"
    by (simp add: startswith_def)
  have ids: "map doc_id (fst (discover_chunks id
         [\<lparr>relative_parts = [[102]], is_file = Inr True, suffix = [],
           st_size = Some 200, read_text = Some (concat (replicate 100 [97, 10]))\<rparr>]
         [47, 115] [] False (Finite 2) 40 10 [99]))
       = [[102, 58, 58, 48], [102, 58, 58, 49], [102, 58, 58, 50], [102, 58, 58, 51]]"
    unfolding doc_id_one_file[OF sel, of "concat (replicate 100 [97, 10])", simplified] len
    by (simp add: upt_rec str_nat.simps py_def as_posix_def)
  from h1 r len ids show ?thesis by simp
qed

section \<open>Chunk ids count the chunks that are yielded\<close>

lemma window_starts_3: "window_starts 3 (max 1 (1 - 0)) = [0, 1, 2]"
  by (simp add: window_starts_def num_windows_def upt_rec)

lemma window_starts_2: "window_starts 2 (max 1 (1 - 0)) = [0, 1]"
  by (simp add: window_starts_def num_windows_def upt_rec)

lemma window_chunk_single:
  "window_chunk [[a], [b], [d]] 1 0 = strip [a]"
  "window_chunk [[a], [b], [d]] 1 1 = strip [b]"
  "window_chunk [[a], [b], [d]] 1 2 = strip [d]"
  "window_chunk [[a], [b]] 1 0 = strip [a]"
  "window_chunk [[a], [b]] 1 1 = strip [b]"
  by (simp_all add: window_chunk_def py_slice_def slice_index_def)

lemma strip_single: "strip [ch] = (if is_space ch then [] else [ch])"
  by (simp add: strip_def)

lemma ct_abc: "chunk_text [97, 10, 98, 10, 99] 1 0 = [([97], 1, 1), ([98], 2, 2), ([99], 3, 3)]"
proof -
  have sl: "splitlines [97, 10, 98, 10, 99] = [[97], [98], [99]]"
    by (simp add: splitlines_def is_linebreak_def)
  have len: "length [[97], [98], [99::nat]] = 3" by simp
  show ?thesis
    unfolding chunk_text_filter sl len window_starts_3
    by (simp add: window_chunk_single strip_single is_space_def)
qed

lemma ct_a_c: "chunk_text [97, 10, 32, 10, 99] 1 0 = [([97], 1, 1), ([99], 3, 3)]"
proof -
  have sl: "splitlines [97, 10, 32, 10, 99] = [[97], [32], [99]]"
    by (simp add: splitlines_def is_linebreak_def)
  have len: "length [[97], [32], [99::nat]] = 3" by simp
  show ?thesis
    unfolding chunk_text_filter sl len window_starts_3
    by (simp add: window_chunk_single strip_single is_space_def)
qed

lemma ct_ab: "chunk_text [97, 10, 98] 1 0 = [([97], 1, 1), ([98], 2, 2)]"
proof -
  have sl: "splitlines [97, 10, 98] = [[97], [98]]"
    by (simp add: splitlines_def is_linebreak_def)
  have len: "length [[97], [98::nat]] = 2" by simp
  show ?thesis
    unfolding chunk_text_filter sl len window_starts_2
    by (simp add: window_chunk_single strip_single is_space_def)
qed

lemma enumerate_map:
  "List.enumerate n (map f xs) = map (\<lambda>(i, x). (i, f x)) (List.enumerate n xs)"
  by (induction xs arbitrary: n) simp_all

lemma file_chunks_windows:
  "file_chunks rel sd coll s c ov =
     map (\<lambda>(n, st).
            \<lparr>doc_id = rel @ py ''::'' @ str_nat n,
             document = window_chunk (splitlines s) c st,
             metadata = [(py ''path'', rel),
                         (py ''start_line'', str_int (st + 1)),
                         (py ''end_line'', str_int (min (int (length (splitlines s))) (st + c))),
                         (py ''source_dir'', sd),
                         (py ''collection'', coll)]\<rparr>)
       (List.enumerate 0
          (filter (\<lambda>st. window_chunk (splitlines s) c st \<noteq> [])
             (window_starts (length (splitlines s)) (max 1 (c - ov)))))"
  unfolding file_chunks_def chunk_text_filter enumerate_map
  by (simp add: split_def)

lemma str_int_small:
  "str_int 1 = [49]" "str_int 2 = [50]" "str_int 3 = [51]"
  by (simp_all add: str_int_def str_nat.simps)

lemma str_nat_small:
  "str_nat 0 = [48]" "str_nat (Suc 0) = [49]" "str_nat (Suc (Suc 0)) = [50]"
  by (simp_all add: str_nat.simps)

lemma fc_abc:
  "map (\<lambda>ch. (doc_id ch, map_of (metadata ch) (py ''start_line''),
                map_of (metadata ch) (py ''end_line'')))
     (file_chunks rel sd coll [97, 10, 98, 10, 99] 1 0)
   = [(rel @ [58, 58, 48], Some [49], Some [49]),
      (rel @ [58, 58, 49], Some [50], Some [50]),
      (rel @ [58, 58, 50], Some [51], Some [51])]"
  unfolding file_chunks_def ct_abc
  by (simp add: List.enumerate_eq_zip upt_rec str_int_small str_nat_small py_def)

lemma fc_a_c:
  "map (\<lambda>ch. (doc_id ch, map_of (metadata ch) (py ''start_line''),
                map_of (metadata ch) (py ''end_line'')))
     (file_chunks rel sd coll [97, 10, 32, 10, 99] 1 0)
   = [(rel @ [58, 58, 48], Some [49], Some [49]),
      (rel @ [58, 58, 49], Some [51], Some [51])]"
  unfolding file_chunks_def ct_a_c
  by (simp add: List.enumerate_eq_zip upt_rec str_int_small str_nat_small py_def)

text \<open>
  Claim C10. The chunks of one file are numbered by \<open>enumerate\<close> over what \<open>chunk_text\<close>
  yields: the ids are \<open><path>::0\<close> to \<open><path>::<k-1>\<close> with \<open>k\<close> the number of windows whose
  text is not empty after stripping, and the chunk of index \<open>n\<close> is the one of the \<open>n\<close>-th
  such window. So a dropped window shifts every later id down by one, and the line range of
  a chunk does not determine its index: the third line of \<open>a, b, c\<close> gets \<open>::2\<close>, the third
  line of \<open>a, blank, c\<close> gets \<open>::1\<close> (one line per chunk).
\<close>

theorem chunk_ids_consecutive:
  "file_chunks rel sd coll text c ov =
     map (\<lambda>(n, s).
            \<lparr>doc_id = rel @ py ''::'' @ str_nat n,
             document = window_chunk (splitlines text) c s,
             metadata = [(py ''path'', rel),
                         (py ''start_line'', str_int (s + 1)),
                         (py ''end_line'', str_int (min (int (length (splitlines text))) (s + c))),
                         (py ''source_dir'', sd),
                         (py ''collection'', coll)]\<rparr>)
       (List.enumerate 0
          (filter (\<lambda>s. window_chunk (splitlines text) c s \<noteq> [])
             (window_starts (length (splitlines text)) (max 1 (c - ov)))))
   \<and> map doc_id (file_chunks rel sd coll text c ov) =
       map (\<lambda>n. rel @ py ''::'' @ str_nat n)
         [0..<length (filter (\<lambda>s. window_chunk (splitlines text) c s \<noteq> [])
                        (window_starts (length (splitlines text)) (max 1 (c - ov))))]
   \<and> map (\<lambda>ch. (doc_id ch, map_of (metadata ch) (py ''start_line''),
                  map_of (metadata ch) (py ''end_line'')))
         (file_chunks rel sd coll [97, 10, 98, 10, 99] 1 0)
       = [(rel @ [58, 58, 48], Some [49], Some [49]),
          (rel @ [58, 58, 49], Some [50], Some [50]),
          (rel @ [58, 58, 50], Some [51], Some [51])]
   \<and> map (\<lambda>ch. (doc_id ch, map_of (metadata ch) (py ''start_line''),
                  map_of (metadata ch) (py ''end_line'')))
         (file_chunks rel sd coll [97, 10, 32, 10, 99] 1 0)
       = [(rel @ [58, 58, 48], Some [49], Some [49]),
          (rel @ [58, 58, 49], Some [51], Some [51])]"
proof (intro conjI)
  show "map doc_id (file_chunks rel sd coll text c ov) =
       map (\<lambda>n. rel @ py ''::'' @ str_nat n)
         [0..<length (filter (\<lambda>s. window_chunk (splitlines text) c s \<noteq> [])
                        (window_starts (length (splitlines text)) (max 1 (c - ov))))]"
    by (simp only: doc_id_file_chunks length_chunk_text_filter)
qed (rule file_chunks_windows fc_abc fc_a_c)+

theorem chunk_ids_consecutive_witness:
  "map (\<lambda>ch. (doc_id ch, map_of (metadata ch) (py ''start_line''),
               map_of (metadata ch) (py ''end_line'')))
     (file_chunks [102] [47] [99] [97, 10, 98, 10, 99] 1 0)
   = [([102, 58, 58, 48], Some [49], Some [49]),
      ([102, 58, 58, 49], Some [50], Some [50]),
      ([102, 58, 58, 50], Some [51], Some [51])]
   \<and> map (\<lambda>ch. (doc_id ch, map_of (metadata ch) (py ''start_line''),
                  map_of (metadata ch) (py ''end_line'')))
       (file_chunks [102] [47] [99] [97, 10, 32, 10, 99] 1 0)
     = [([102, 58, 58, 48], Some [49], Some [49]),
        ([102, 58, 58, 49], Some [51], Some [51])]"
  using chunk_ids_consecutive[of "[102]" "[47]" "[99]" "[]" 1 0]
  by simp

section \<open>Chunk ids are a function of path and content\<close>

text \<open>
  Claim C4. The ids that \<open>discover_chunks\<close> produces are, file by file in the order of
  selection, \<open><posix-relative-path>::<n>\<close> for \<open>n\<close> from zero to the number of chunks of
  the file less one; a file that cannot be read contributes none. They depend only on the
  relative paths and the contents of the selected files and on the chunking parameters: two
  runs that select files with the same relative paths and contents, in the same order,
  produce the same ids in the same order, whatever the root directory, the collection name
  and the other attributes of the files are.
\<close>

theorem chunk_ids_deterministic:
  assumes "map (\<lambda>p. (relative_parts p, read_text p))
             (fst (iter_code_files lower rglob extensions include_hidden max_file_mb))
           = map (\<lambda>p. (relative_parts p, read_text p))
               (fst (iter_code_files lower' rglob' extensions' include_hidden' max_file_mb'))"
  shows "map doc_id (fst (discover_chunks lower rglob source_dir extensions include_hidden
                       max_file_mb c ov collection))
         = concat (map (\<lambda>p. case read_text p of
                          None \<Rightarrow> []
                        | Some text \<Rightarrow>
                            map (\<lambda>n. as_posix (relative_parts p) @ py ''::'' @ str_nat n)
                              [0..<length (chunk_text text c ov)])
                    (fst (iter_code_files lower rglob extensions include_hidden max_file_mb)))
       \<and> map doc_id (fst (discover_chunks lower rglob source_dir extensions include_hidden
                       max_file_mb c ov collection))
         = map doc_id (fst (discover_chunks lower' rglob' source_dir' extensions' include_hidden'
                       max_file_mb' c ov collection'))"
proof -
  define ids where "ids = (\<lambda>(parts, content).
      case content of
        None \<Rightarrow> []
      | Some s \<Rightarrow> map (\<lambda>n. as_posix parts @ py ''::'' @ str_nat n)
                    [0..<length (chunk_text s c ov)])"
  have key: "\<And>paths sd coll. map doc_id (discover_files paths sd c ov coll) =
      concat (map ids (map (\<lambda>p. (relative_parts p, read_text p)) paths))"
    by (simp add: doc_id_discover_files ids_def o_def)
  have a: "map doc_id (fst (discover_chunks lower rglob source_dir extensions include_hidden
                       max_file_mb c ov collection))
         = concat (map (\<lambda>p. case read_text p of
                          None \<Rightarrow> []
                        | Some text \<Rightarrow>
                            map (\<lambda>n. as_posix (relative_parts p) @ py ''::'' @ str_nat n)
                              [0..<length (chunk_text text c ov)])
                    (fst (iter_code_files lower rglob extensions include_hidden max_file_mb)))"
    by (simp only: discover_chunks_def Let_def fst_conv doc_id_discover_files)
  have b: "map doc_id (fst (discover_chunks lower rglob source_dir extensions include_hidden
                       max_file_mb c ov collection))
         = map doc_id (fst (discover_chunks lower' rglob' source_dir' extensions' include_hidden'
                       max_file_mb' c ov collection'))"
    unfolding discover_chunks_def Let_def fst_conv key assms ..
  from a b show ?thesis by (rule conjI)
qed

theorem chunk_ids_deterministic_witness:
  "map (\<lambda>p. (relative_parts p, read_text p))
     (fst (iter_code_files id
        [\<lparr>relative_parts = [[102]], is_file = Inr True, suffix = [], st_size = Some 3,
          read_text = Some [97, 10, 98]\<rparr>] [] False (Finite 2)))
   = map (\<lambda>p. (relative_parts p, read_text p))
       (fst (iter_code_files id
          [\<lparr>relative_parts = [[46, 103]], is_file = Inr True, suffix = [], st_size = Some 1,
            read_text = Some [120]\<rparr>,
           \<lparr>relative_parts = [[102]], is_file = Inr True, suffix = [], st_size = Some 5,
            read_text = Some [97, 10, 98]\<rparr>] [] False (Finite 2)))
   \<and> map doc_id (fst (discover_chunks id
         [\<lparr>relative_parts = [[102]], is_file = Inr True, suffix = [], st_size = Some 3,
           read_text = Some [97, 10, 98]\<rparr>] [47] [] False (Finite 2) 1 0 [99]))
       = [[102, 58, 58, 48], [102, 58, 58, 49]]
   \<and> map doc_id (fst (discover_chunks id
         [\<lparr>relative_parts = [[46, 103]], is_file = Inr True, suffix = [], st_size = Some 1,
           read_text = Some [120]\<rparr>,
          \<lparr>relative_parts = [[102]], is_file = Inr True, suffix = [], st_size = Some 5,
           read_text = Some [97, 10, 98]\<rparr>] [48] [] False (Finite 2) 1 0 [100]))
       = [[102, 58, 58, 48], [102, 58, 58, 49]]"
proof -
  have sel: "iter_code_files id
        [\<lparr>relative_parts = [[102]], is_file = Inr True, suffix = [], st_size = Some 3,
          read_text = Some [97, 10, 98]\<rparr>] [] False (Finite 2)
      = ([\<lparr>relative_parts = [[102]], is_file = Inr True, suffix = [], st_size = Some 3,
          read_text = Some [97, 10, 98]\<rparr>], None)"
    by (simp add: startswith_def)
  have sel': "iter_code_files id
          [\<lparr>relative_parts = [[46, 103]], is_file = Inr True, suffix = [], st_size = Some 1,
            read_text = Some [120]\<rparr>,
           \<lparr>relative_parts = [[102]], is_file = Inr True, suffix = [], st_size = Some 5,
            read_text = Some [97, 10, 98]\<rparr>] [] False (Finite 2)
      = ([\<lparr>relative_parts = [[102]], is_file = Inr True, suffix = [], st_size = Some 5,
            read_text = Some [97, 10, 98]\<rparr>], None)"
    by (simp add: startswith_def)
  have h: "map (\<lambda>p. (relative_parts p, read_text p))
     (fst (iter_code_files id
        [\<lparr>relative_parts = [[102]], is_file = Inr True, suffix = [], st_size = Some 3,
          read_text = Some [97, 10, 98]\<rparr>] [] False (Finite 2)))
   = map (\<lambda>p. (relative_parts p, read_text p))
       (fst (iter_code_files id
          [\<lparr>relative_parts = [[46, 103]], is_file = Inr True, suffix = [], st_size = Some 1,
            read_text = Some [120]\<rparr>,
           \<lparr>relative_parts = [[102]], is_file = Inr True, suffix = [], st_size = Some 5,
            read_text = Some [97, 10, 98]\<rparr>] [] False (Finite 2)))"
    unfolding sel sel' by simp
  note th = chunk_ids_deterministic[OF h, of "[47]" 1 0 "[99]" "[48]" "[100]"]
  have run1: "map doc_id (fst (discover_chunks id
         [\<lparr>relative_parts = [[102]], is_file = Inr True, suffix = [], st_size = Some 3,
           read_text = Some [97, 10, 98]\<rparr>] [47] [] False (Finite 2) 1 0 [99]))
       = [[102, 58, 58, 48], [102, 58, 58, 49]]"
    unfolding th[THEN conjunct1] sel
    by (simp add: ct_ab as_posix_def py_def upt_rec str_nat_small)
  have run2: "map doc_id (fst (discover_chunks id
         [\<lparr>relative_parts = [[46, 103]], is_file = Inr True, suffix = [], st_size = Some 1,
           read_text = Some [120]\<rparr>,
          \<lparr>relative_parts = [[102]], is_file = Inr True, suffix = [], st_size = Some 5,
           read_text = Some [97, 10, 98]\<rparr>] [48] [] False (Finite 2) 1 0 [100]))
       = [[102, 58, 58, 48], [102, 58, 58, 49]]"
    using th[THEN conjunct2] run1 by simp
  from h run1 run2 show ?thesis by (intro conjI)
qed

section \<open>The file selector\<close>

lemma fst_iter_code_files:
  "fst (iter_code_files lower rglob extensions include_hidden max_file_mb) =
     filter (\<lambda>p. is_file p = Inr True
                \<and> (include_hidden \<or> \<not> list_ex (\<lambda>part. startswith part [46]) (relative_parts p))
                \<and> (extensions = [] \<or> lower (suffix p) \<in> set extensions)
                \<and> (case st_size p of
                      None \<Rightarrow> False
                    | Some sz \<Rightarrow>
                        \<not> int_gt_float sz (float_times (float_times max_file_mb 1024) 1024)))
       (takeWhile (\<lambda>p. \<not> isl (is_file p)) rglob)"
  by (induction rglob) (auto simp: Let_def split: sum.splits option.splits)

lemma snd_iter_code_files:
  "snd (iter_code_files lower rglob extensions include_hidden max_file_mb) =
     (case dropWhile (\<lambda>p. \<not> isl (is_file p)) rglob of
        [] \<Rightarrow> None
      | p # rest \<Rightarrow> (case is_file p of Inl exc \<Rightarrow> Some exc | Inr regular \<Rightarrow> None))"
  by (induction rglob) (auto simp: Let_def split: sum.splits option.splits)

lemma iter_code_files_no_raise:
  "(snd (iter_code_files lower rglob extensions include_hidden max_file_mb) = None)
       = (\<forall>p \<in> set rglob. \<not> isl (is_file p))"
proof (induction rglob)
  case Nil
  then show ?case by simp
next
  case (Cons p rglob)
  then show ?case
    by (cases "is_file p") (auto simp: Let_def split: option.splits)
qed

lemma finite_size_bound:
  "\<not> int_gt_float sz (float_times (float_times (Finite r) 1024) 1024)
     \<Longrightarrow> real sz \<le> r * 1024 * 1024"
  by simp

text \<open>
  Claim C8. Every path that \<open>iter_code_files\<close> yields is a path of the listing under the
  root that is a regular file; unless hidden files are included, none of its relative parts
  starts with a dot; when the allow-list is not empty, its lower-cased suffix is in the list;
  and its size is known and does not exceed \<open>max_file_mb * 1024 * 1024\<close> bytes. All of that
  holds of the code, which yields exactly the paths passing these tests, in the order of the
  listing, up to the first path on which \<open>path.is_file()\<close> raises. The last part of the claim,
  that a file which cannot be stat'ed is skipped without an error, holds only of the \<open>stat\<close>
  inside the \<open>try\<close>: the earlier \<open>path.is_file()\<close> stats the file outside it, and when that
  raises (a file in a directory that may be listed but not searched, \<open>EACCES\<close>) the
  generator ends with the exception instead of skipping the file.
\<close>

theorem iter_code_files_stat_outside_try:
  "(\<forall>p \<in> set (fst (iter_code_files lower rglob extensions include_hidden max_file_mb)).
       p \<in> set rglob
     \<and> is_file p = Inr True
     \<and> (\<not> include_hidden \<longrightarrow> (\<forall>part \<in> set (relative_parts p). \<not> startswith part [46]))
     \<and> (extensions \<noteq> [] \<longrightarrow> lower (suffix p) \<in> set extensions)
     \<and> (\<exists>sz. st_size p = Some sz
              \<and> \<not> int_gt_float sz (float_times (float_times max_file_mb 1024) 1024)
              \<and> (\<forall>r. max_file_mb = Finite r \<longrightarrow> real sz \<le> r * 1024 * 1024)))
   \<and> fst (iter_code_files lower rglob extensions include_hidden max_file_mb) =
     filter (\<lambda>p. is_file p = Inr True
                \<and> (include_hidden \<or> \<not> list_ex (\<lambda>part. startswith part [46]) (relative_parts p))
                \<and> (extensions = [] \<or> lower (suffix p) \<in> set extensions)
                \<and> (case st_size p of
                      None \<Rightarrow> False
                    | Some sz \<Rightarrow>
                        \<not> int_gt_float sz (float_times (float_times max_file_mb 1024) 1024)))
       (takeWhile (\<lambda>p. \<not> isl (is_file p)) rglob)
   \<and> snd (iter_code_files lower rglob extensions include_hidden max_file_mb) =
     (case dropWhile (\<lambda>p. \<not> isl (is_file p)) rglob of
        [] \<Rightarrow> None
      | p # rest \<Rightarrow> (case is_file p of Inl exc \<Rightarrow> Some exc | Inr regular \<Rightarrow> None))
   \<and> (\<forall>p \<in> set rglob. st_size p = None \<longrightarrow>
         p \<notin> set (fst (iter_code_files lower rglob extensions include_hidden max_file_mb)))
   \<and> (snd (iter_code_files lower rglob extensions include_hidden max_file_mb) = None)
       = (\<forall>p \<in> set rglob. \<not> isl (is_file p))
   \<and> (\<forall>p exc rest. is_file p = Inl exc \<longrightarrow>
         iter_code_files lower (p # rest) extensions include_hidden max_file_mb
           = ([], Some exc))"
proof (intro conjI)
  show "\<forall>p \<in> set (fst (iter_code_files lower rglob extensions include_hidden max_file_mb)).
       p \<in> set rglob
     \<and> is_file p = Inr True
     \<and> (\<not> include_hidden \<longrightarrow> (\<forall>part \<in> set (relative_parts p). \<not> startswith part [46]))
     \<and> (extensions \<noteq> [] \<longrightarrow> lower (suffix p) \<in> set extensions)
     \<and> (\<exists>sz. st_size p = Some sz
              \<and> \<not> int_gt_float sz (float_times (float_times max_file_mb 1024) 1024)
              \<and> (\<forall>r. max_file_mb = Finite r \<longrightarrow> real sz \<le> r * 1024 * 1024))"
    unfolding fst_iter_code_files
    using finite_size_bound
    by (auto simp: list_ex_iff split: option.splits dest: set_takeWhileD)
  show "\<forall>p \<in> set rglob. st_size p = None \<longrightarrow>
         p \<notin> set (fst (iter_code_files lower rglob extensions include_hidden max_file_mb))"
    unfolding fst_iter_code_files by auto
  show "\<forall>p exc rest. is_file p = Inl exc \<longrightarrow>
         iter_code_files lower (p # rest) extensions include_hidden max_file_mb
           = ([], Some exc)"
    by simp
qed (rule fst_iter_code_files snd_iter_code_files iter_code_files_no_raise)+

theorem iter_code_files_stat_outside_try_witness:
  "iter_code_files (map (\<lambda>ch. if 65 \<le> ch \<and> ch \<le> 90 then ch + 32 else ch))
     [\<lparr>relative_parts = [[97, 46, 112, 121]], is_file = Inr True, suffix = [46, 112, 121],
       st_size = Some 2097152, read_text = None\<rparr>,
      \<lparr>relative_parts = [[98, 46, 112, 121]], is_file = Inr True, suffix = [46, 112, 121],
       st_size = None, read_text = None\<rparr>,
      \<lparr>relative_parts = [[99, 46, 112, 121]], is_file = Inr True, suffix = [46, 112, 121],
       st_size = Some 2097153, read_text = None\<rparr>,
      \<lparr>relative_parts = [[100], [101, 46, 112, 121]],
       is_file = Inl (OSError (py ''Permission denied'')), suffix = [46, 112, 121],
       st_size = None, read_text = None\<rparr>,
      \<lparr>relative_parts = [[102, 46, 112, 121]], is_file = Inr True, suffix = [46, 112, 121],
       st_size = Some 1, read_text = None\<rparr>]
     [[46, 112, 121]] False (Finite 2)
   = ([\<lparr>relative_parts = [[97, 46, 112, 121]], is_file = Inr True, suffix = [46, 112, 121],
       st_size = Some 2097152, read_text = None\<rparr>],
      Some (OSError (py ''Permission denied'')))"
proof -
  note th = iter_code_files_stat_outside_try[of
      "(map (\<lambda>ch. if 65 \<le> ch \<and> ch \<le> 90 then ch + 32 else ch))"
      "[\<lparr>relative_parts = [[97, 46, 112, 121]], is_file = Inr True, suffix = [46, 112, 121],
       st_size = Some 2097152, read_text = None\<rparr>,
      \<lparr>relative_parts = [[98, 46, 112, 121]], is_file = Inr True, suffix = [46, 112, 121],
       st_size = None, read_text = None\<rparr>,
      \<lparr>relative_parts = [[99, 46, 112, 121]], is_file = Inr True, suffix = [46, 112, 121],
       st_size = Some 2097153, read_text = None\<rparr>,
      \<lparr>relative_parts = [[100], [101, 46, 112, 121]],
       is_file = Inl (OSError (py ''Permission denied'')), suffix = [46, 112, 121],
       st_size = None, read_text = None\<rparr>,
      \<lparr>relative_parts = [[102, 46, 112, 121]], is_file = Inr True, suffix = [46, 112, 121],
       st_size = Some 1, read_text = None\<rparr>]"
      "[[46, 112, 121]]" False "Finite 2"]
  have f: "fst (iter_code_files (map (\<lambda>ch. if 65 \<le> ch \<and> ch \<le> 90 then ch + 32 else ch))
     [\<lparr>relative_parts = [[97, 46, 112, 121]], is_file = Inr True, suffix = [46, 112, 121],
       st_size = Some 2097152, read_text = None\<rparr>,
      \<lparr>relative_parts = [[98, 46, 112, 121]], is_file = Inr True, suffix = [46, 112, 121],
       st_size = None, read_text = None\<rparr>,
      \<lparr>relative_parts = [[99, 46, 112, 121]], is_file = Inr True, suffix = [46, 112, 121],
       st_size = Some 2097153, read_text = None\<rparr>,
      \<lparr>relative_parts = [[100], [101, 46, 112, 121]],
       is_file = Inl (OSError (py ''Permission denied'')), suffix = [46, 112, 121],
       st_size = None, read_text = None\<rparr>,
      \<lparr>relative_parts = [[102, 46, 112, 121]], is_file = Inr True, suffix = [46, 112, 121],
       st_size = Some 1, read_text = None\<rparr>]
     [[46, 112, 121]] False (Finite 2))
   = [\<lparr>relative_parts = [[97, 46, 112, 121]], is_file = Inr True, suffix = [46, 112, 121],
       st_size = Some 2097152, read_text = None\<rparr>]"
    unfolding th[THEN conjunct2, THEN conjunct1] by (simp add: startswith_def)
  have g: "snd (iter_code_files (map (\<lambda>ch. if 65 \<le> ch \<and> ch \<le> 90 then ch + 32 else ch))
     [\<lparr>relative_parts = [[97, 46, 112, 121]], is_file = Inr True, suffix = [46, 112, 121],
       st_size = Some 2097152, read_text = None\<rparr>,
      \<lparr>relative_parts = [[98, 46, 112, 121]], is_file = Inr True, suffix = [46, 112, 121],
       st_size = None, read_text = None\<rparr>,
      \<lparr>relative_parts = [[99, 46, 112, 121]], is_file = Inr True, suffix = [46, 112, 121],
       st_size = Some 2097153, read_text = None\<rparr>,
      \<lparr>relative_parts = [[100], [101, 46, 112, 121]],
       is_file = Inl (OSError (py ''Permission denied'')), suffix = [46, 112, 121],
       st_size = None, read_text = None\<rparr>,
      \<lparr>relative_parts = [[102, 46, 112, 121]], is_file = Inr True, suffix = [46, 112, 121],
       st_size = Some 1, read_text = None\<rparr>]
     [[46, 112, 121]] False (Finite 2))
   = Some (OSError (py ''Permission denied''))"
    unfolding th[THEN conjunct2, THEN conjunct2, THEN conjunct1] by simp
  from f g show ?thesis
    by (simp only: prod_eq_iff fst_conv snd_conv simp_thms)
qed

section \<open>The retriever cleans and aligns the reply\<close>

lemma clean_metadata_filter:
  "clean_metadata str_of (Some d) =
     map (\<lambda>(key, val). (key, str_of (the val))) (filter (\<lambda>(key, val). val \<noteq> None) d)"
  by (induction d) (auto simp: clean_metadata_def List.map_filter_simps split: option.splits)

lemma clean_metadata_None: "clean_metadata str_of None = []"
  by (simp add: clean_metadata_def List.map_filter_simps)

lemma query_contexts_rows:
  assumes "first_row (query_metadatas results) = Inr metadatas"
    and "first_row (query_documents results) = Inr documents"
    and "first_row (query_distances results) = Inr distances"
  shows "query_contexts str_of results =
           Inr (map (clean_triple str_of) (zip metadatas (zip documents distances)))"
  by (simp add: query_contexts_def assms)

lemma query_collection_sync_ok:
  assumes "env_mkdir env (env_resolve env db_dir) = None"
    and "env_client env (env_resolve env db_dir) = None"
    and "env_get_or_create env (env_resolve env db_dir) collection_name = None"
    and "env_query env (env_resolve env db_dir) collection_name question top_k = Inr results"
  shows "query_collection_sync str_of env question db_dir collection_name top_k =
           (query_contexts str_of results,
            [ResolveDbDir db_dir, Mkdir (env_resolve env db_dir),
             PersistentClient (env_resolve env db_dir),
             GetOrCreateCollection collection_name, CollectionQuery question top_k])"
  by (simp add: query_collection_sync_def get_collection_def resolve_db_dir_def
      io_do_def assms raising_def io_return_def io_bind_def)

text \<open>
  Claim C6, as amended. When the store answers the query and each of the fields
  \<open>metadatas\<close>, \<open>documents\<close> and \<open>distances\<close> of the reply gives a first row (a missing
  key and a \<open>None\<close> row count as the empty row), \<open>_query_collection_sync\<close> returns the
  cleaned triples of the positions present in all three rows, in the order of the reply and
  without sorting: of a metadata map the keys whose value is \<open>None\<close> are dropped and the
  other values are turned into strings, a \<open>None\<close> document becomes the empty string and a
  \<open>None\<close> distance becomes \<open>0.0\<close>. The rows are zipped, so positions beyond the shortest row
  give no triple.
\<close>

theorem query_contexts_zip:
  assumes "first_row (query_metadatas results) = Inr metadatas"
    and "first_row (query_documents results) = Inr documents"
    and "first_row (query_distances results) = Inr distances"
    and "env_mkdir env (env_resolve env db_dir) = None"
    and "env_client env (env_resolve env db_dir) = None"
    and "env_get_or_create env (env_resolve env db_dir) collection_name = None"
    and "env_query env (env_resolve env db_dir) collection_name question top_k = Inr results"
  shows "fst (query_collection_sync str_of env question db_dir collection_name top_k)
           = Inr (map (clean_triple str_of) (zip metadatas (zip documents distances)))
         \<and> length (zip metadatas (zip documents distances))
             = min (length metadatas) (min (length documents) (length distances))
         \<and> (\<forall>i < min (length metadatas) (min (length documents) (length distances)).
               map (clean_triple str_of) (zip metadatas (zip documents distances)) ! i
               = (clean_metadata str_of (metadatas ! i),
                  (case documents ! i of None \<Rightarrow> [] | Some d \<Rightarrow> d),
                  (case distances ! i of None \<Rightarrow> 0 | Some x \<Rightarrow> x)))
         \<and> (\<forall>d. clean_metadata str_of (Some d)
                    = map (\<lambda>(key, val). (key, str_of (the val)))
                        (filter (\<lambda>(key, val). val \<noteq> None) d))
         \<and> clean_metadata str_of None = []"
proof -
  have a: "fst (query_collection_sync str_of env question db_dir collection_name top_k)
           = Inr (map (clean_triple str_of) (zip metadatas (zip documents distances)))"
    by (simp add: query_collection_sync_ok[OF assms(4-7)] query_contexts_rows[OF assms(1-3)])
  have b: "length (zip metadatas (zip documents distances))
             = min (length metadatas) (min (length documents) (length distances))"
    by simp
  have c: "\<forall>i < min (length metadatas) (min (length documents) (length distances)).
               map (clean_triple str_of) (zip metadatas (zip documents distances)) ! i
               = (clean_metadata str_of (metadatas ! i),
                  (case documents ! i of None \<Rightarrow> [] | Some d \<Rightarrow> d),
                  (case distances ! i of None \<Rightarrow> 0 | Some x \<Rightarrow> x))"
    by (simp add: clean_triple_def)
  have d: "\<forall>d. clean_metadata str_of (Some d)
                    = map (\<lambda>(key, val). (key, str_of (the val)))
                        (filter (\<lambda>(key, val). val \<noteq> None) d)"
    by (simp add: clean_metadata_filter)
  from a b c d clean_metadata_None show ?thesis by (intro conjI)
qed

theorem query_contexts_zip_witness:
  "fst (query_collection_sync str_nat
      \<lparr>env_resolve = (\<lambda>d. d), env_mkdir = (\<lambda>p. None), env_client = (\<lambda>p. None),
       env_get_or_create = (\<lambda>p n. None), env_get_collection = (\<lambda>p n. None),
       env_query = (\<lambda>p n q k. Inr \<lparr>query_metadatas = Some (Some [Some [Some [([112], Some 7), ([120], None)], None]]),
         query_documents = Some (Some [Some [Some [100], None]]),
         query_distances = Some (Some [Some [Some (1 / 2), None]])\<rparr>),
       env_count = (\<lambda>p n. Inr 0),
       env_get = (\<lambda>p n l off docs.
                    Inr \<lparr>get_ids = None, get_metadatas = None, get_documents = None\<rparr>)\<rparr>
      [113] [100] [99] 2)
   = Inr [([([112], [55])], [100], 1 / 2), ([], [], 0)]"
proof -
  have h1: "first_row (query_metadatas \<lparr>query_metadatas = Some (Some [Some [Some [([112], Some 7), ([120], None)], None]]),
         query_documents = Some (Some [Some [Some [100], None]]),
         query_distances = Some (Some [Some [Some (1 / 2), None]])\<rparr>)
            = Inr [Some [([112], Some (7::nat)), ([120], None)], None]"
    by (simp add: first_row_def)
  have h2: "first_row (query_documents (\<lparr>query_metadatas = Some (Some [Some [Some [([112], Some 7), ([120], None)], None]]),
         query_documents = Some (Some [Some [Some [100], None]]),
         query_distances = Some (Some [Some [Some (1 / 2), None]])\<rparr>
              :: nat query_results))
            = Inr [Some [100], None]"
    by (simp add: first_row_def)
  have h3: "first_row (query_distances (\<lparr>query_metadatas = Some (Some [Some [Some [([112], Some 7), ([120], None)], None]]),
         query_documents = Some (Some [Some [Some [100], None]]),
         query_distances = Some (Some [Some [Some (1 / 2), None]])\<rparr>
              :: nat query_results))
            = Inr [Some (1 / 2), None]"
    by (simp add: first_row_def)
  show ?thesis
    using query_contexts_zip[OF h1 h2 h3, of
      "\<lparr>env_resolve = (\<lambda>d. d), env_mkdir = (\<lambda>p. None), env_client = (\<lambda>p. None),
       env_get_or_create = (\<lambda>p n. None), env_get_collection = (\<lambda>p n. None),
       env_query = (\<lambda>p n q k. Inr \<lparr>query_metadatas = Some (Some [Some [Some [([112], Some 7), ([120], None)], None]]),
         query_documents = Some (Some [Some [Some [100], None]]),
         query_distances = Some (Some [Some [Some (1 / 2), None]])\<rparr>),
       env_count = (\<lambda>p n. Inr 0),
       env_get = (\<lambda>p n l off docs.
                    Inr \<lparr>get_ids = None, get_metadatas = None, get_documents = None\<rparr>)\<rparr>"
      "[100]" "[99]" "[113]" 2 str_nat, THEN conjunct1]
    by (simp add: clean_triple_def clean_metadata_def List.map_filter_simps str_nat.simps)
qed

text \<open>
  The claim as stated, for every reply and with a missing field never costing a triple,
  fails when a whole field is missing: the default \<open>[[]]\<close> of \<open>results.get\<close> makes the row
  of distances empty, and \<open>zip\<close> then yields nothing, although a metadata map and a document
  were returned.
\<close>

theorem query_missing_distances_counterexample:
  "query_contexts id
      \<lparr>query_metadatas = Some (Some [Some [Some [([112], Some [97])]]]),
         query_documents = Some (Some [Some [Some [120]]]),
         query_distances = None\<rparr>
   = Inr []
   \<and> fst (query_collection_sync id
      \<lparr>env_resolve = (\<lambda>d. d), env_mkdir = (\<lambda>p. None), env_client = (\<lambda>p. None),
       env_get_or_create = (\<lambda>p n. None), env_get_collection = (\<lambda>p n. None),
       env_query = (\<lambda>p n q k. Inr \<lparr>query_metadatas = Some (Some [Some [Some [([112], Some [97])]]]),
         query_documents = Some (Some [Some [Some [120]]]),
         query_distances = None\<rparr>),
       env_count = (\<lambda>p n. Inr 0),
       env_get = (\<lambda>p n l off docs.
                    Inr \<lparr>get_ids = None, get_metadatas = None, get_documents = None\<rparr>)\<rparr>
      [113] [100] [99] 1)
     = Inr []
   \<and> fst (query_collection_sync id
      \<lparr>env_resolve = (\<lambda>d. d), env_mkdir = (\<lambda>p. None), env_client = (\<lambda>p. None),
       env_get_or_create = (\<lambda>p n. None), env_get_collection = (\<lambda>p n. None),
       env_query = (\<lambda>p n q k. Inr \<lparr>query_metadatas = Some (Some [Some [Some [([112], Some [97])]]]),
         query_documents = Some (Some [Some [Some [120]]]),
         query_distances = None\<rparr>),
       env_count = (\<lambda>p n. Inr 0),
       env_get = (\<lambda>p n l off docs.
                    Inr \<lparr>get_ids = None, get_metadatas = None, get_documents = None\<rparr>)\<rparr>
      [113] [100] [99] 1)
     \<noteq> Inr [([([112], [97])], [120], 0)]"
proof -
  have a: "query_contexts id
      \<lparr>query_metadatas = Some (Some [Some [Some [([112], Some [97])]]]),
         query_documents = Some (Some [Some [Some [120]]]),
         query_distances = None\<rparr>
   = Inr []"
    by (simp add: query_contexts_def first_row_def)
  have b: "fst (query_collection_sync id
      \<lparr>env_resolve = (\<lambda>d. d), env_mkdir = (\<lambda>p. None), env_client = (\<lambda>p. None),
       env_get_or_create = (\<lambda>p n. None), env_get_collection = (\<lambda>p n. None),
       env_query = (\<lambda>p n q k. Inr \<lparr>query_metadatas = Some (Some [Some [Some [([112], Some [97])]]]),
         query_documents = Some (Some [Some [Some [120]]]),
         query_distances = None\<rparr>),
       env_count = (\<lambda>p n. Inr 0),
       env_get = (\<lambda>p n l off docs.
                    Inr \<lparr>get_ids = None, get_metadatas = None, get_documents = None\<rparr>)\<rparr>
      [113] [100] [99] 1)
     = Inr []"
    by (simp add: query_collection_sync_ok a)
  from a b show ?thesis by simp
qed

section \<open>The tools validate before they call out\<close>

lemma io_bind_calls: "\<exists>rest. snd (io_bind m f) = snd m @ rest"
  by (cases m) (auto simp: io_bind_def split: sum.splits prod.splits)

lemma io_try_calls: "\<exists>rest. snd (io_try m handler cont) = snd m @ rest"
  by (cases m) (auto simp: io_try_def split: sum.splits prod.splits)

lemma get_collection_calls:
  "\<exists>rest. snd (get_collection env db_dir collection_name) = ResolveDbDir db_dir # rest"
  using io_bind_calls[of "resolve_db_dir env db_dir"]
  by (simp add: get_collection_def resolve_db_dir_def io_do_def)

lemma query_collection_sync_calls:
  "\<exists>rest. snd (query_collection_sync str_of env question db_dir collection_name top_k)
            = ResolveDbDir db_dir # rest"
proof -
  obtain r1 where r1: "snd (get_collection env db_dir collection_name) = ResolveDbDir db_dir # r1"
    using get_collection_calls by blast
  obtain r2 where "snd (query_collection_sync str_of env question db_dir collection_name top_k)
      = snd (get_collection env db_dir collection_name) @ r2"
    unfolding query_collection_sync_def using io_bind_calls by blast
  then show ?thesis using r1 by simp
qed

lemma list_rows_sync_calls:
  "\<exists>rest. snd (list_rows_sync str_of env db_dir collection_name limit offset include_docs)
            = ResolveDbDir db_dir # rest"
  using io_bind_calls[of "resolve_db_dir env db_dir"]
  by (simp add: list_rows_sync_def resolve_db_dir_def io_do_def)

lemma query_codebase_valid:
  assumes "0 < top_k"
  shows "\<exists>rest. snd (query_codebase pres str_of env question top_k collection db_dir)
            = ResolveDbDir db_dir # rest"
proof -
  obtain r1 where r1: "snd (query_collection_sync str_of env question db_dir collection top_k)
            = ResolveDbDir db_dir # r1"
    using query_collection_sync_calls by blast
  have "\<exists>handler cont. query_codebase pres str_of env question top_k collection db_dir =
     io_try (query_collection_sync str_of env question db_dir collection top_k) handler cont"
  proof -
    have v: "validate_positive (py ''top_k'') top_k = (Inr (), [])"
      using assms by (simp add: validate_positive_def io_return_def)
    have b: "\<And>f. io_bind (Inr (), []) f = f ()"
      by (simp add: io_bind_def split: prod.splits)
    show ?thesis
      unfolding query_codebase_def v b by blast
  qed
  then obtain r2 where "snd (query_codebase pres str_of env question top_k collection db_dir)
      = snd (query_collection_sync str_of env question db_dir collection top_k) @ r2"
    using io_try_calls by metis
  then show ?thesis using r1 by simp
qed

lemma list_rows_valid:
  assumes "0 < limit" and "0 \<le> offset"
  shows "\<exists>rest. snd (list_rows pres str_of env collection db_dir limit offset include_documents)
            = ResolveDbDir db_dir # rest"
proof -
  obtain r1 where r1:
    "snd (list_rows_sync str_of env db_dir collection limit offset include_documents)
       = ResolveDbDir db_dir # r1"
    using list_rows_sync_calls by blast
  have "\<exists>handler cont. list_rows pres str_of env collection db_dir limit offset include_documents =
     io_try (list_rows_sync str_of env db_dir collection limit offset include_documents)
       handler cont"
    using assms
    by (auto simp add: list_rows_def validate_positive_def io_return_def io_bind_def
        split: prod.splits)
  then obtain r2 where
    "snd (list_rows pres str_of env collection db_dir limit offset include_documents)
      = snd (list_rows_sync str_of env db_dir collection limit offset include_documents) @ r2"
    using io_try_calls by metis
  then show ?thesis using r1 by simp
qed

text \<open>
  Claim C9. \<open>query_codebase\<close> rejects every \<open>top_k \<le> 0\<close>, and \<open>list_rows\<close> rejects every
  \<open>limit \<le> 0\<close> and every \<open>offset < 0\<close>, with a \<open>ValueError\<close> that reaches the caller and
  before any call to the file system or the store: the list of calls made is empty. On valid
  arguments the first call is the one that resolves the database directory.
\<close>

theorem tools_validate_before_io:
  "(top_k \<le> 0 \<longrightarrow>
      query_codebase pres str_of env question top_k collection db_dir
        = (Inl (ValueError (py ''top_k must be greater than zero.'')), []))
   \<and> (limit \<le> 0 \<longrightarrow>
      list_rows pres str_of env collection db_dir limit offset include_documents
        = (Inl (ValueError (py ''limit must be greater than zero.'')), []))
   \<and> (0 < limit \<and> offset < 0 \<longrightarrow>
      list_rows pres str_of env collection db_dir limit offset include_documents
        = (Inl (ValueError (py ''offset must be zero or greater.'')), []))
   \<and> (0 < top_k \<longrightarrow>
      (\<exists>rest. snd (query_codebase pres str_of env question top_k collection db_dir)
                = ResolveDbDir db_dir # rest))
   \<and> (0 < limit \<and> 0 \<le> offset \<longrightarrow>
      (\<exists>rest. snd (list_rows pres str_of env collection db_dir limit offset include_documents)
                = ResolveDbDir db_dir # rest))"
proof (intro conjI impI)
  assume "top_k \<le> 0"
  then show "query_codebase pres str_of env question top_k collection db_dir
        = (Inl (ValueError (py ''top_k must be greater than zero.'')), [])"
    by (simp add: query_codebase_def validate_positive_def io_raise_def io_bind_def py_def)
next
  assume "limit \<le> 0"
  then show "list_rows pres str_of env collection db_dir limit offset include_documents
        = (Inl (ValueError (py ''limit must be greater than zero.'')), [])"
    by (simp add: list_rows_def validate_positive_def io_raise_def io_bind_def py_def)
next
  assume "0 < limit \<and> offset < 0"
  then show "list_rows pres str_of env collection db_dir limit offset include_documents
        = (Inl (ValueError (py ''offset must be zero or greater.'')), [])"
    by (simp add: list_rows_def validate_positive_def io_raise_def io_return_def io_bind_def)
next
  assume "0 < top_k"
  then show "\<exists>rest. snd (query_codebase pres str_of env question top_k collection db_dir)
                = ResolveDbDir db_dir # rest"
    by (rule query_codebase_valid)
next
  assume "0 < limit \<and> 0 \<le> offset"
  then show "\<exists>rest. snd (list_rows pres str_of env collection db_dir limit offset include_documents)
                = ResolveDbDir db_dir # rest"
    using list_rows_valid by blast
qed

theorem tools_validate_before_io_witness:
  "query_codebase
      \<lparr>format_context = (\<lambda>md doc dst idx. doc), simple_summary = (\<lambda>q ctx. q),
       format_rows_output = (\<lambda>path coll total off rows docs. coll)\<rparr>
      id
      \<lparr>env_resolve = (\<lambda>d. d), env_mkdir = (\<lambda>p. None), env_client = (\<lambda>p. None),
       env_get_or_create = (\<lambda>p n. None), env_get_collection = (\<lambda>p n. None),
       env_query = (\<lambda>p n q k.
                      Inr \<lparr>query_metadatas = None, query_documents = None,
                           query_distances = None\<rparr>),
       env_count = (\<lambda>p n. Inr 0),
       env_get = (\<lambda>p n l off docs.
                    Inr \<lparr>get_ids = None, get_metadatas = None, get_documents = None\<rparr>)\<rparr>
      [113] 0 [99] [100]
     = (Inl (ValueError (py ''top_k must be greater than zero.'')), [])
   \<and> list_rows
      \<lparr>format_context = (\<lambda>md doc dst idx. doc), simple_summary = (\<lambda>q ctx. q),
       format_rows_output = (\<lambda>path coll total off rows docs. coll)\<rparr>
      id
      \<lparr>env_resolve = (\<lambda>d. d), env_mkdir = (\<lambda>p. None), env_client = (\<lambda>p. None),
       env_get_or_create = (\<lambda>p n. None), env_get_collection = (\<lambda>p n. None),
       env_query = (\<lambda>p n q k.
                      Inr \<lparr>query_metadatas = None, query_documents = None,
                           query_distances = None\<rparr>),
       env_count = (\<lambda>p n. Inr 0),
       env_get = (\<lambda>p n l off docs.
                    Inr \<lparr>get_ids = None, get_metadatas = None, get_documents = None\<rparr>)\<rparr>
      [99] [100] 0 0 False
     = (Inl (ValueError (py ''limit must be greater than zero.'')), [])
   \<and> list_rows
      \<lparr>format_context = (\<lambda>md doc dst idx. doc), simple_summary = (\<lambda>q ctx. q),
       format_rows_output = (\<lambda>path coll total off rows docs. coll)\<rparr>
      id
      \<lparr>env_resolve = (\<lambda>d. d), env_mkdir = (\<lambda>p. None), env_client = (\<lambda>p. None),
       env_get_or_create = (\<lambda>p n. None), env_get_collection = (\<lambda>p n. None),
       env_query = (\<lambda>p n q k.
                      Inr \<lparr>query_metadatas = None, query_documents = None,
                           query_distances = None\<rparr>),
       env_count = (\<lambda>p n. Inr 0),
       env_get = (\<lambda>p n l off docs.
                    Inr \<lparr>get_ids = None, get_metadatas = None, get_documents = None\<rparr>)\<rparr>
      [99] [100] 10 (- 1) False
     = (Inl (ValueError (py ''offset must be zero or greater.'')), [])
   \<and> hd (snd (query_codebase
      \<lparr>format_context = (\<lambda>md doc dst idx. doc), simple_summary = (\<lambda>q ctx. q),
       format_rows_output = (\<lambda>path coll total off rows docs. coll)\<rparr>
      id
      \<lparr>env_resolve = (\<lambda>d. d), env_mkdir = (\<lambda>p. None), env_client = (\<lambda>p. None),
       env_get_or_create = (\<lambda>p n. None), env_get_collection = (\<lambda>p n. None),
       env_query = (\<lambda>p n q k.
                      Inr \<lparr>query_metadatas = None, query_documents = None,
                           query_distances = None\<rparr>),
       env_count = (\<lambda>p n. Inr 0),
       env_get = (\<lambda>p n l off docs.
                    Inr \<lparr>get_ids = None, get_metadatas = None, get_documents = None\<rparr>)\<rparr>
      [113] 5 [99] [100]))
     = ResolveDbDir [100]
   \<and> hd (snd (list_rows
      \<lparr>format_context = (\<lambda>md doc dst idx. doc), simple_summary = (\<lambda>q ctx. q),
       format_rows_output = (\<lambda>path coll total off rows docs. coll)\<rparr>
      id
      \<lparr>env_resolve = (\<lambda>d. d), env_mkdir = (\<lambda>p. None), env_client = (\<lambda>p. None),
       env_get_or_create = (\<lambda>p n. None), env_get_collection = (\<lambda>p n. None),
       env_query = (\<lambda>p n q k.
                      Inr \<lparr>query_metadatas = None, query_documents = None,
                           query_distances = None\<rparr>),
       env_count = (\<lambda>p n. Inr 0),
       env_get = (\<lambda>p n l off docs.
                    Inr \<lparr>get_ids = None, get_metadatas = None, get_documents = None\<rparr>)\<rparr>
      [99] [100] 10 0 False))
     = ResolveDbDir [100]"
  using tools_validate_before_io[of 0
      "\<lparr>format_context = (\<lambda>md doc dst idx. doc), simple_summary = (\<lambda>q ctx. q),
       format_rows_output = (\<lambda>path coll total off rows docs. coll)\<rparr>"
      id
      "\<lparr>env_resolve = (\<lambda>d. d), env_mkdir = (\<lambda>p. None), env_client = (\<lambda>p. None),
       env_get_or_create = (\<lambda>p n. None), env_get_collection = (\<lambda>p n. None),
       env_query = (\<lambda>p n q k.
                      Inr \<lparr>query_metadatas = None, query_documents = None,
                           query_distances = None\<rparr>),
       env_count = (\<lambda>p n. Inr 0),
       env_get = (\<lambda>p n l off docs.
                    Inr \<lparr>get_ids = None, get_metadatas = None, get_documents = None\<rparr>)\<rparr>"
      "[113]" "[99]" "[100]" 0 0 False]
    tools_validate_before_io[of 5
      "\<lparr>format_context = (\<lambda>md doc dst idx. doc), simple_summary = (\<lambda>q ctx. q),
       format_rows_output = (\<lambda>path coll total off rows docs. coll)\<rparr>"
      id
      "\<lparr>env_resolve = (\<lambda>d. d), env_mkdir = (\<lambda>p. None), env_client = (\<lambda>p. None),
       env_get_or_create = (\<lambda>p n. None), env_get_collection = (\<lambda>p n. None),
       env_query = (\<lambda>p n q k.
                      Inr \<lparr>query_metadatas = None, query_documents = None,
                           query_distances = None\<rparr>),
       env_count = (\<lambda>p n. Inr 0),
       env_get = (\<lambda>p n l off docs.
                    Inr \<lparr>get_ids = None, get_metadatas = None, get_documents = None\<rparr>)\<rparr>"
      "[113]" "[99]" "[100]" 10 "- 1" False]
    tools_validate_before_io[of 5
      "\<lparr>format_context = (\<lambda>md doc dst idx. doc), simple_summary = (\<lambda>q ctx. q),
       format_rows_output = (\<lambda>path coll total off rows docs. coll)\<rparr>"
      id
      "\<lparr>env_resolve = (\<lambda>d. d), env_mkdir = (\<lambda>p. None), env_client = (\<lambda>p. None),
       env_get_or_create = (\<lambda>p n. None), env_get_collection = (\<lambda>p n. None),
       env_query = (\<lambda>p n q k.
                      Inr \<lparr>query_metadatas = None, query_documents = None,
                           query_distances = None\<rparr>),
       env_count = (\<lambda>p n. Inr 0),
       env_get = (\<lambda>p n l off docs.
                    Inr \<lparr>get_ids = None, get_metadatas = None, get_documents = None\<rparr>)\<rparr>"
      "[113]" "[99]" "[100]" 10 0 False]
  by auto

end
